theory Spec2Isabelle
  imports
    Main
    "HOL-Library.Char_ord"
    "HOL-Library.List_Lexorder"
    "HOL-Library.AList"
begin

section \<open>Strings of the Go runtime\<close>

text \<open>
  A Go string is a sequence of bytes; \<open>string\<close> (a list of 8-bit characters) is the same
  data. \<open>sort.Strings\<close> orders strings bytewise and lexicographically, which is the order
  of \<open>List_Lexorder\<close> over \<open>Char_ord\<close>, so \<open>sort\<close> on a list of strings stands
  for \<open>sort.Strings\<close>.
\<close>

definition HasPrefix :: "string \<Rightarrow> string \<Rightarrow> bool" where
  "HasPrefix s p = (take (length p) s = p)"

definition HasSuffix :: "string \<Rightarrow> string \<Rightarrow> bool" where
  "HasSuffix s p = (length p \<le> length s \<and> drop (length s - length p) s = p)"

text \<open>
  \<open>strings.Replace(s, old, new, n)\<close>: the first \<open>n\<close> non-overlapping occurrences of
  \<open>old\<close>, found from the left, are replaced by \<open>new\<close>; a negative \<open>n\<close> replaces all
  of them. Every call in this program passes a non-empty literal for \<open>old\<close>; for the empty
  pattern (which Go matches between characters) the model leaves \<open>s\<close> as it is.
\<close>

function Replace :: "string \<Rightarrow> string \<Rightarrow> string \<Rightarrow> int \<Rightarrow> string" where
  "Replace s old new n =
     (if n = 0 \<or> old = [] \<or> s = [] then s
      else if HasPrefix s old then new @ Replace (drop (length old) s) old new (n - 1)
      else hd s # Replace (tl s) old new n)"
  by pat_completeness auto
termination
  by (relation "measure (\<lambda>(s, old, new, n). length s)") auto

declare Replace.simps [simp del]

definition ReplaceAll :: "string \<Rightarrow> string \<Rightarrow> string \<Rightarrow> string" where
  "ReplaceAll s old new = Replace s old new (- 1)"

text \<open>\<open>strings.Join\<close>.\<close>

fun Join :: "string list \<Rightarrow> string \<Rightarrow> string" where
  "Join [] sep = []"
| "Join [x] sep = x"
| "Join (x # y # ys) sep = x @ sep @ Join (y # ys) sep"

section \<open>Escaping and CDATA (dicttoxml.go)\<close>

text \<open>\<open>EscapeXML\<close>: five calls of \<open>strings.ReplaceAll\<close>, the ampersand first.\<close>

definition EscapeXML :: "string \<Rightarrow> string" where
  "EscapeXML s =
     (let s = ReplaceAll s ''&'' ''&amp;'';
          s = ReplaceAll s [CHR 0x22] ''&quot;'';
          s = ReplaceAll s [CHR 0x27] ''&apos;'';
          s = ReplaceAll s ''<'' ''&lt;'';
          s = ReplaceAll s ''>'' ''&gt;''
      in s)"

text \<open>
  The reading of the specification: one pass over the text, every character replaced on
  its own by its entity, the produced text never looked at again.
\<close>

definition escape_char :: "char \<Rightarrow> string" where
  "escape_char c =
     (if c = CHR ''&'' then ''&amp;''
      else if c = CHR 0x22 then ''&quot;''
      else if c = CHR 0x27 then ''&apos;''
      else if c = CHR ''<'' then ''&lt;''
      else if c = CHR ''>'' then ''&gt;''
      else [c])"

definition escape_single_pass :: "string \<Rightarrow> string" where
  "escape_single_pass s = concat (map escape_char s)"

text \<open>\<open>WrapCDATA\<close>.\<close>

definition WrapCDATA :: "string \<Rightarrow> string" where
  "WrapCDATA s =
     (let s = ReplaceAll s '']]>'' '']]]]><![CDATA[>''
      in ''<![CDATA['' @ s @ '']]>'')"

section \<open>Values, options and their text forms\<close>

text \<open>
  The JSON-like values the transcoder walks (\<open>any\<close> in the source): \<open>nil\<close>, \<open>bool\<close>,
  integers, \<open>float64\<close>, \<open>string\<close>, \<open>time.Time\<close>, \<open>map[string]any\<close> and \<open>[]any\<close>.
  A map is an association list with distinct keys; no order of the list is ever
  observed, because the program sorts the keys before it ranges over a map.
  The text forms that the Go runtime computes are carried by the value: a \<open>float64\<close> holds
  the text that \<open>fmt\<close> prints for it under \<open>%v\<close>; a \<open>time.Time\<close> holds its RFC 3339 text
  (\<open>t.Format(time.RFC3339)\<close>) and the text of \<open>t.String()\<close>, which \<open>%v\<close> prints.
\<close>

datatype val =
    VNil
  | VBool bool
  | VInt int
  | VFloat string
  | VStr string
  | VTime string string
  | VMap "(string \<times> val) list"
  | VSeq "val list"

type_synonym gomap = "(string \<times> val) list"

text \<open>Decimal text of an integer, as \<open>%d\<close> and \<open>%v\<close> print it.\<close>

definition digit_char :: "nat \<Rightarrow> char" where
  "digit_char d = ''0123456789'' ! d"

function itoa_nat :: "nat \<Rightarrow> string" where
  "itoa_nat n = (if n < 10 then [digit_char n] else itoa_nat (n div 10) @ [digit_char (n mod 10)])"
  by pat_completeness auto
termination
  by (relation "measure id") auto

declare itoa_nat.simps [simp del]

definition Itoa :: "int \<Rightarrow> string" where
  "Itoa i = (if i < 0 then ''-'' @ itoa_nat (nat (- i)) else itoa_nat (nat i))"

text \<open>The map index \<open>m[k]\<close>: the zero value \<open>nil\<close> for a key that is not there.\<close>

definition index :: "gomap \<Rightarrow> string \<Rightarrow> val" where
  "index m k = (case map_of m k of Some v \<Rightarrow> v | None \<Rightarrow> VNil)"

lemma size_map_entry [termination_simp]:
  "(k, v) \<in> set m \<Longrightarrow> size v < Suc (size_list (size_prod (\<lambda>_. 0) size) m)"
  by (induction m) auto

text \<open>
  \<open>fmt.Sprintf("%v", v)\<close>. A map prints its entries in ascending key order, a slice its
  members in order, both separated by blanks.
\<close>

fun fmt_v :: "val \<Rightarrow> string" where
  "fmt_v VNil = ''<nil>''"
| "fmt_v (VBool b) = (if b then ''true'' else ''false'')"
| "fmt_v (VInt i) = Itoa i"
| "fmt_v (VFloat t) = t"
| "fmt_v (VStr s) = s"
| "fmt_v (VTime rfc str) = str"
| "fmt_v (VMap m) =
     ''map['' @ Join (map (\<lambda>(k, v). k @ '':'' @ fmt_v v) (sort_key fst m)) '' '' @ '']''"
| "fmt_v (VSeq xs) = ''['' @ Join (map fmt_v xs) '' '' @ '']''"

text \<open>
  \<open>fmt.Sprintf("%s", v)\<close>: a string prints as it is and a \<open>time.Time\<close> through its
  \<open>String\<close> method; for a value of another kind \<open>fmt\<close> reports the wrong verb. A \<open>nil\<close>
  held in a map or a slice prints as \<open><nil>\<close> under every verb.
\<close>

fun fmt_s :: "val \<Rightarrow> string" where
  "fmt_s VNil = ''%!s(<nil>)''"
| "fmt_s (VBool b) = ''%!s(bool='' @ (if b then ''true'' else ''false'') @ '')''"
| "fmt_s (VInt i) = ''%!s(int='' @ Itoa i @ '')''"
| "fmt_s (VFloat t) = ''%!s(float64='' @ t @ '')''"
| "fmt_s (VStr s) = s"
| "fmt_s (VTime rfc str) = str"
| "fmt_s (VMap m) =
     ''map['' @ Join (map (\<lambda>(k, v). k @ '':'' @ (if v = VNil then ''<nil>'' else fmt_s v)) (sort_key fst m)) '' ''
     @ '']''"
| "fmt_s (VSeq xs) = ''['' @ Join (map (\<lambda>v. if v = VNil then ''<nil>'' else fmt_s v) xs) '' '' @ '']''"

text \<open>\<open>Options\<close>. \<open>ItemFunc\<close> is a function value and may be \<open>nil\<close>; so may \<open>XMLNamespaces\<close>.
  Go ranges over a map in an order it does not specify: the order of the list
  \<open>XMLNamespaces\<close> stands for the order of the run.\<close>

record Options =
  Root :: bool
  CustomRoot :: string
  IDs :: bool
  AttrType :: bool
  ItemWrap :: bool
  ItemFunc :: "(string \<Rightarrow> string) option"
  CDATA :: bool
  XMLNamespaces :: "gomap option"
  ListHeaders :: bool
  XPathFormat :: bool

definition DefaultItemFunc :: "string \<Rightarrow> string" where
  "DefaultItemFunc parent = ''item''"

definition DefaultOptions :: Options where
  "DefaultOptions =
     \<lparr> Root = True, CustomRoot = ''root'', IDs = False, AttrType = True, ItemWrap = True,
       ItemFunc = Some DefaultItemFunc, CDATA = False, XMLNamespaces = None,
       ListHeaders = False, XPathFormat = False \<rparr>"

text \<open>\<open>GetXMLType\<close> and \<open>IsPrimitiveType\<close>.\<close>

fun GetXMLType :: "val \<Rightarrow> string" where
  "GetXMLType VNil = ''null''"
| "GetXMLType (VBool b) = ''bool''"
| "GetXMLType (VInt i) = ''int''"
| "GetXMLType (VFloat t) = ''float''"
| "GetXMLType (VStr s) = ''str''"
| "GetXMLType (VMap m) = ''dict''"
| "GetXMLType (VSeq xs) = ''list''"
| "GetXMLType (VTime rfc str) = ''str''"

definition IsPrimitiveType :: "val \<Rightarrow> bool" where
  "IsPrimitiveType v =
     (let t = GetXMLType v
      in t = ''str'' \<or> t = ''int'' \<or> t = ''float'' \<or> t = ''bool'' \<or> t = ''null'')"

text \<open>
  \<open>MakeAttrString\<close>. An attribute map (\<open>map[string]any\<close>) may be \<open>nil\<close>, which is
  \<open>None\<close> here; reading a \<open>nil\<close> map is reading an empty one.
\<close>

type_synonym attrs = "gomap option"

definition MakeAttrString :: "attrs \<Rightarrow> string" where
  "MakeAttrString attrs =
     (case attrs of
        None \<Rightarrow> []
      | Some a \<Rightarrow>
          if length a = 0 then []
          else
            let keys = sort (map fst a);
                parts = map (\<lambda>k. k @ [CHR ''='', CHR 0x22] @ EscapeXML (fmt_v (index a k)) @ [CHR 0x22]) keys
            in '' '' @ Join parts '' '')"

section \<open>The XML-name sanitizer\<close>

text \<open>
  Modelled from the spec: the verdict of the XML decoder of Go's standard library
  (\<open>encoding/xml\<close>, not part of the repository), which \<open>KeyIsValidXML\<close> runs over the
  probe document \<open><?xml version="1.0" encoding="UTF-8" ?><key>foo</key>\<close> to learn
  whether \<open>key\<close> is a legal element name. The specification (4.1) gives the verdict:
  a legal name is non-empty, starts with a letter or an underscore, and contains only
  letters, digits, \<open>-\<close>, \<open>_\<close>, \<open>.\<close> and namespace colons. Letters are the ASCII letters.
  The theorems below apply it to ASCII keys with no colon and no trailing blank; the
  decoder's verdict on a letter outside ASCII, on a key made of colons or holding
  several, and on a key that ends in a blank is not covered by this definition.
\<close>

definition is_letter :: "char \<Rightarrow> bool" where
  "is_letter c = ((CHR ''a'' \<le> c \<and> c \<le> CHR ''z'') \<or> (CHR ''A'' \<le> c \<and> c \<le> CHR ''Z''))"

definition is_digit :: "char \<Rightarrow> bool" where
  "is_digit c = (CHR ''0'' \<le> c \<and> c \<le> CHR ''9'')"

definition name_char :: "char \<Rightarrow> bool" where
  "name_char c =
     (is_letter c \<or> is_digit c \<or> c = CHR ''-'' \<or> c = CHR ''_'' \<or> c = CHR ''.'' \<or> c = CHR '':'')"

definition decoder_accepts_name :: "string \<Rightarrow> bool" where
  "decoder_accepts_name key =
     (case key of [] \<Rightarrow> False | c # cs \<Rightarrow> (is_letter c \<or> c = CHR ''_'') \<and> list_all name_char cs)"

text \<open>\<open>KeyIsValidXML\<close>: the empty key is refused before the decoder is asked.\<close>

definition KeyIsValidXML :: "string \<Rightarrow> bool" where
  "KeyIsValidXML key = (if key = [] then False else decoder_accepts_name key)"

text \<open>\<open>isNumeric\<close>.\<close>

definition isNumeric :: "string \<Rightarrow> bool" where
  "isNumeric s = (if s = [] then False else list_all (\<lambda>c. \<not> (c < CHR ''0'' \<or> c > CHR ''9'')) s)"

text \<open>
  \<open>MakeValidXMLName\<close>. The last branch allocates the attribute map when the caller
  passed \<open>nil\<close> and stores the (escaped) key under \<open>name\<close>.
\<close>

definition MakeValidXMLName :: "string \<Rightarrow> attrs \<Rightarrow> string \<times> attrs" where
  "MakeValidXMLName key0 attrs =
     (let key = EscapeXML key0 in
      if KeyIsValidXML key then (key, attrs)
      else if isNumeric key then (''n'' @ key, attrs)
      else
        let keyWithUnderscores = ReplaceAll key '' '' ''_'' in
        if KeyIsValidXML keyWithUnderscores then (keyWithUnderscores, attrs)
        else
          let keyClean = ReplaceAll key '':'' [];
              keyClean = ReplaceAll keyClean ''@flat'' []
          in
          if KeyIsValidXML keyClean then (key, attrs)
          else
            let a = (case attrs of None \<Rightarrow> [] | Some a \<Rightarrow> a)
            in (''key'', Some (AList.update ''name'' (VStr key) a)))"

section \<open>Panics and the random source\<close>

text \<open>
  Two run-time panics are within reach of the transcoder: calling \<open>opts.ItemFunc\<close> when
  it is \<open>nil\<close>, and storing into an attribute map that is \<open>nil\<close>
  (\<open>attrs["type"] = ...\<close>). A panic is a result of its own.
\<close>

datatype panic = NilFuncCall | NilMapWrite

definition andThen :: "panic + 'a \<Rightarrow> ('a \<Rightarrow> panic + 'b) \<Rightarrow> panic + 'b" where
  "andThen m f = (case m of Inl e \<Rightarrow> Inl e | Inr x \<Rightarrow> f x)"

lemma andThen_Inr [simp]: "andThen (Inr x) f = f x"
  by (simp add: andThen_def)

lemma andThen_Inl [simp]: "andThen (Inl e) f = Inl e"
  by (simp add: andThen_def)

lemma andThen_cong [fundef_cong]:
  "m = m' \<Longrightarrow> (\<And>x. m' = Inr x \<Longrightarrow> f x = g x) \<Longrightarrow> andThen m f = andThen m' g"
  by (auto simp: andThen_def split: sum.splits)

text \<open>\<open>attrs[k] = v\<close>.\<close>

definition mapassign :: "attrs \<Rightarrow> string \<Rightarrow> val \<Rightarrow> panic + attrs" where
  "mapassign attrs k v =
     (case attrs of None \<Rightarrow> Inl NilMapWrite | Some a \<Rightarrow> Inr (Some (AList.update k v a)))"

text \<open>\<open>opts.ItemFunc(parent)\<close>.\<close>

definition callItemFunc :: "Options \<Rightarrow> string \<Rightarrow> panic + string" where
  "callItemFunc opts parent =
     (case ItemFunc opts of None \<Rightarrow> Inl NilFuncCall | Some f \<Rightarrow> Inr (f parent))"

text \<open>
  The state of \<open>math/rand\<close> is the sequence of numbers it is going to hand out:
  \<open>rand.Intn(k)\<close> returns the next one, reduced below \<open>k\<close>, and moves on.
\<close>

type_synonym rand = "nat \<Rightarrow> nat"

definition Intn :: "nat \<Rightarrow> rand \<Rightarrow> nat \<times> rand" where
  "Intn k r = (r 0 mod k, (\<lambda>i. r (Suc i)))"

text \<open>\<open>GetUniqueID(element)\<close>, that is \<open>MakeID(element, 100000, 999999)\<close>.\<close>

definition GetUniqueID :: "string \<Rightarrow> rand \<Rightarrow> string \<times> rand" where
  "GetUniqueID element r =
     (let (x, r') = Intn (999999 - 100000 + 1) r
      in (element @ ''_'' @ itoa_nat (x + 100000), r'))"

section \<open>The default dialect\<close>

text \<open>The three leaf converters.\<close>

definition ConvertKV :: "string \<Rightarrow> val \<Rightarrow> bool \<Rightarrow> attrs \<Rightarrow> bool \<Rightarrow> panic + string" where
  "ConvertKV key0 val0 attrType attrs0 cdata =
     (let attrs = (case attrs0 of None \<Rightarrow> Some [] | Some a \<Rightarrow> Some a);
          (key, attrs) = MakeValidXMLName key0 attrs;
          val = (case val0 of VTime rfc str \<Rightarrow> VStr rfc | _ \<Rightarrow> val0)
      in andThen (if attrType then mapassign attrs ''type'' (VStr (GetXMLType val)) else Inr attrs)
           (\<lambda>attrs.
              let attrString = MakeAttrString attrs;
                  valStr = fmt_v val;
                  valStr = (if cdata then WrapCDATA valStr else EscapeXML valStr)
              in Inr (''<'' @ key @ attrString @ ''>'' @ valStr @ ''</'' @ key @ ''>'')))"

definition ConvertBool :: "string \<Rightarrow> bool \<Rightarrow> bool \<Rightarrow> attrs \<Rightarrow> bool \<Rightarrow> panic + string" where
  "ConvertBool key0 val attrType attrs0 cdata =
     (let attrs = (case attrs0 of None \<Rightarrow> Some [] | Some a \<Rightarrow> Some a);
          (key, attrs) = MakeValidXMLName key0 attrs
      in andThen (if attrType then mapassign attrs ''type'' (VStr (GetXMLType (VBool val))) else Inr attrs)
           (\<lambda>attrs.
              let attrString = MakeAttrString attrs;
                  valStr = fmt_v (VBool val)
              in Inr (''<'' @ key @ attrString @ ''>'' @ valStr @ ''</'' @ key @ ''>'')))"

definition ConvertNone :: "string \<Rightarrow> bool \<Rightarrow> attrs \<Rightarrow> bool \<Rightarrow> panic + string" where
  "ConvertNone key0 attrType attrs0 cdata =
     (let attrs = (case attrs0 of None \<Rightarrow> Some [] | Some a \<Rightarrow> Some a);
          (key, attrs) = MakeValidXMLName key0 attrs
      in andThen (if attrType then mapassign attrs ''type'' (VStr (GetXMLType VNil)) else Inr attrs)
           (\<lambda>attrs.
              let attrString = MakeAttrString attrs
              in Inr (''<'' @ key @ attrString @ ''></'' @ key @ ''>'')))"

text \<open>
  The meta keys of \<open>Dict2XMLStr\<close> (\<open>extractSpecialAttrs\<close> in the source). \<open>rawItem\<close> is
  either the map \<open>item\<close> itself, the same object, which therefore shows the deletions
  that follow, or the value stored under \<open>@val\<close>. The fourth component is \<open>item\<close> as the
  three \<open>delete\<close> calls leave it.
\<close>

datatype rawItem = Self | Other val

definition extractSpecialAttrs :: "gomap \<Rightarrow> attrs \<Rightarrow> attrs \<times> rawItem \<times> bool \<times> gomap" where
  "extractSpecialAttrs item defaultAttrs =
     (let (attrs, item) =
            (case map_of item ''@attrs'' of
               Some (VMap ca) \<Rightarrow> (Some ca, AList.delete ''@attrs'' item)
             | _ \<Rightarrow> (defaultAttrs, item));
          (rawItem, item) =
            (case map_of item ''@val'' of
               Some v \<Rightarrow> (Other v, AList.delete ''@val'' item)
             | None \<Rightarrow> (Self, item));
          (flat, item) =
            (case map_of item ''@flat'' of
               Some f \<Rightarrow> ((case f of VBool fb \<Rightarrow> fb | _ \<Rightarrow> False), AList.delete ''@flat'' item)
             | None \<Rightarrow> (False, item))
      in (attrs, rawItem, flat, item))"

text \<open>The value that \<open>rawItem\<close> denotes once the deletions are done.\<close>

definition rawValue :: "rawItem \<Rightarrow> gomap \<Rightarrow> val" where
  "rawValue raw item = (case raw of Self \<Rightarrow> VMap item | Other v \<Rightarrow> v)"

text \<open>\<open>strings.TrimSuffix(name, "@flat")\<close>, written \<open>itemName[:len(itemName)-5]\<close> under
  \<open>strings.HasSuffix\<close>.\<close>

definition trimFlat :: "string \<Rightarrow> string" where
  "trimFlat itemName =
     (if HasSuffix itemName ''@flat'' then take (length itemName - 5) itemName else itemName)"

text \<open>
  A \<open>range\<close> loop that writes one piece of text per element into a \<open>strings.Builder\<close>:
  the pieces are concatenated in order, the random source is handed from one element to
  the next, and a panic ends the loop. The second component collects what each element
  has become, since converting a map strips its meta keys in place.
\<close>

fun writeEach ::
  "('a \<Rightarrow> rand \<Rightarrow> panic + (string \<times> 'b \<times> rand)) \<Rightarrow> 'a list \<Rightarrow> rand \<Rightarrow> panic + (string \<times> 'b list \<times> rand)"
where
  "writeEach f [] r = Inr ([], [], r)"
| "writeEach f (x # xs) r =
     andThen (f x r) (\<lambda>(s, y, r1).
       andThen (writeEach f xs r1) (\<lambda>(out, ys, r2). Inr (s @ out, y # ys, r2)))"

lemma writeEach_cong [fundef_cong]:
  "xs = ys \<Longrightarrow> r = r' \<Longrightarrow> (\<And>x q. x \<in> set ys \<Longrightarrow> f x q = g x q)
   \<Longrightarrow> writeEach f xs r = writeEach g ys r'"
proof (induction ys arbitrary: xs r r')
  case Nil
  then show ?case by simp
next
  case (Cons y ys)
  have "writeEach f ys q = writeEach g ys q" for q
    by (rule Cons.IH) (simp_all add: Cons.prems)
  then show ?case using Cons.prems by simp
qed

text \<open>
  The recursion of the transcoder follows the value: every call goes to a part of the
  value at hand, or to the map at hand with meta keys deleted. The lemmas bound the sizes.
\<close>

abbreviation (input) entries_size :: "gomap \<Rightarrow> nat" where
  "entries_size m \<equiv> size_list (size_prod (\<lambda>_. 0) size) m"

lemma size_map_of: "map_of m k = Some v \<Longrightarrow> size v \<le> entries_size m"
  by (induction m) (auto split: if_splits)

lemma size_index: "size (index m k) \<le> entries_size m"
  by (auto simp: index_def dest: size_map_of split: option.splits)

lemma size_delete: "entries_size (AList.delete k m) \<le> entries_size m"
  by (induction m) auto

lemma size_member: "x \<in> set xs \<Longrightarrow> size x < Suc (size_list size xs)"
  by (induction xs) auto

lemma size_rawValue:
  assumes "extractSpecialAttrs item a = (va, raw, fl, item')"
  shows "size (rawValue raw item') \<le> size (VMap item)"
proof -
  define i1 where "i1 = (case map_of item ''@attrs'' of Some (VMap ca) \<Rightarrow> AList.delete ''@attrs'' item | _ \<Rightarrow> item)"
  define i2 where "i2 = (case map_of i1 ''@val'' of Some v \<Rightarrow> AList.delete ''@val'' i1 | None \<Rightarrow> i1)"
  define i3 where "i3 = (case map_of i2 ''@flat'' of Some f \<Rightarrow> AList.delete ''@flat'' i2 | None \<Rightarrow> i2)"
  have s1: "entries_size i1 \<le> entries_size item"
    unfolding i1_def using size_delete [of "''@attrs''" item] by (auto split: option.splits val.splits)
  have s2: "entries_size i2 \<le> entries_size i1"
    unfolding i2_def using size_delete [of "''@val''" i1] by (auto split: option.splits)
  have s3: "entries_size i3 \<le> entries_size i2"
    unfolding i3_def using size_delete [of "''@flat''" i2] by (auto split: option.splits)
  have item': "item' = i3"
    using assms unfolding extractSpecialAttrs_def i1_def i2_def i3_def
    by (auto simp: Let_def split: option.splits val.splits prod.splits)
  have raw: "raw = (case map_of i1 ''@val'' of Some v \<Rightarrow> Other v | None \<Rightarrow> Self)"
    using assms unfolding extractSpecialAttrs_def i1_def
    by (auto simp: Let_def split: option.splits val.splits prod.splits)
  show ?thesis
  proof (cases "map_of i1 ''@val''")
    case None
    with raw item' s1 s2 s3 show ?thesis by (simp add: rawValue_def)
  next
    case (Some v)
    from size_map_of [OF Some] s1 raw Some show ?thesis by (simp add: rawValue_def)
  qed
qed

text \<open>
  \<open>Convert\<close>, \<open>ConvertDict\<close>, \<open>Dict2XMLStr\<close>, \<open>List2XMLStr\<close> and \<open>ConvertList\<close>.
  Each takes the state of the random source and returns, with the text, what the value
  it walked has become (\<open>Dict2XMLStr\<close> deletes meta keys from the caller's map) and the
  random source as it leaves it. \<open>ConvertDict\<close> sorts the keys and ranges over them;
  \<open>obj[key]\<close> is read from the map as the call received it, each key once.

  \<open>dicttoxml.go\<close> holds two revisions of the package. The definitions follow the first,
  which writes the type switches out in \<open>ConvertDict\<close> and \<open>ConvertList\<close>; the second
  moves the same steps into helpers (\<open>normalizeValue\<close>, \<open>convertDictValue\<close>,
  \<open>convertListItem\<close>, \<open>extractSpecialAttrs\<close>, \<open>buildSubtree\<close>, \<open>formatDictOutput\<close>).
  On the values modelled here the two differ in one place: a \<open>time.Time\<close> in a list is
  written under the item name by the first revision, whatever \<open>ItemWrap\<close> says, and under
  the parent's name by the second when \<open>ItemWrap\<close> is off.
\<close>

function
  Convert :: "Options \<Rightarrow> val \<Rightarrow> string \<Rightarrow> rand \<Rightarrow> panic + (string \<times> val \<times> rand)" and
  ConvertDict :: "Options \<Rightarrow> gomap \<Rightarrow> string \<Rightarrow> rand \<Rightarrow> panic + (string \<times> gomap \<times> rand)" and
  Dict2XMLStr :: "Options \<Rightarrow> attrs \<Rightarrow> gomap \<Rightarrow> string \<Rightarrow> bool \<Rightarrow> string \<Rightarrow> rand \<Rightarrow> panic + (string \<times> gomap \<times> rand)" and
  List2XMLStr :: "Options \<Rightarrow> attrs \<Rightarrow> val list \<Rightarrow> string \<Rightarrow> rand \<Rightarrow> panic + (string \<times> val list \<times> rand)" and
  ConvertList :: "Options \<Rightarrow> val list \<Rightarrow> string \<Rightarrow> rand \<Rightarrow> panic + (string \<times> val list \<times> rand)"
where
  "Convert opts obj parent r =
     andThen (callItemFunc opts parent) (\<lambda>itemName.
       case obj of
         VNil \<Rightarrow> andThen (ConvertNone itemName (AttrType opts) None (CDATA opts)) (\<lambda>s. Inr (s, obj, r))
       | VBool b \<Rightarrow> andThen (ConvertBool itemName b (AttrType opts) None (CDATA opts)) (\<lambda>s. Inr (s, obj, r))
       | VInt i \<Rightarrow> andThen (ConvertKV itemName obj (AttrType opts) None (CDATA opts)) (\<lambda>s. Inr (s, obj, r))
       | VFloat t \<Rightarrow> andThen (ConvertKV itemName obj (AttrType opts) None (CDATA opts)) (\<lambda>s. Inr (s, obj, r))
       | VStr t \<Rightarrow> andThen (ConvertKV itemName obj (AttrType opts) None (CDATA opts)) (\<lambda>s. Inr (s, obj, r))
       | VMap m \<Rightarrow> andThen (ConvertDict opts m parent r) (\<lambda>(s, m', r'). Inr (s, VMap m', r'))
       | VSeq items \<Rightarrow> andThen (ConvertList opts items parent r) (\<lambda>(s, items', r'). Inr (s, VSeq items', r'))
       | VTime rfc str \<Rightarrow>
           andThen (ConvertKV itemName (VStr rfc) (AttrType opts) None (CDATA opts)) (\<lambda>s. Inr (s, obj, r)))"
| "ConvertDict opts obj parent r =
     (let keys = sort (map fst obj) in
      andThen
        (writeEach
           (\<lambda>key r.
              let val = index obj key;
                  (attrs, r) =
                    (if IDs opts
                     then (let (id, r') = GetUniqueID parent r in (Some [(''id'', VStr id)], r'))
                     else (Some [], r));
                  (key, attrs) = MakeValidXMLName key attrs
              in case val of
                   VBool v \<Rightarrow> andThen (ConvertBool key v (AttrType opts) attrs (CDATA opts)) (\<lambda>s. Inr (s, val, r))
                 | VInt v \<Rightarrow> andThen (ConvertKV key val (AttrType opts) attrs (CDATA opts)) (\<lambda>s. Inr (s, val, r))
                 | VFloat v \<Rightarrow> andThen (ConvertKV key val (AttrType opts) attrs (CDATA opts)) (\<lambda>s. Inr (s, val, r))
                 | VStr v \<Rightarrow> andThen (ConvertKV key val (AttrType opts) attrs (CDATA opts)) (\<lambda>s. Inr (s, val, r))
                 | VTime rfc str \<Rightarrow>
                     andThen (ConvertKV key (VStr rfc) (AttrType opts) attrs (CDATA opts)) (\<lambda>s. Inr (s, val, r))
                 | VMap v \<Rightarrow>
                     andThen (Dict2XMLStr opts attrs v key False parent r) (\<lambda>(s, v', r'). Inr (s, VMap v', r'))
                 | VSeq v \<Rightarrow>
                     andThen (List2XMLStr opts attrs v key r) (\<lambda>(s, v', r'). Inr (s, VSeq v', r'))
                 | VNil \<Rightarrow> andThen (ConvertNone key (AttrType opts) attrs (CDATA opts)) (\<lambda>s. Inr (s, val, r)))
           keys r)
        (\<lambda>(output, vals, r'). Inr (output, AList.updates keys vals obj, r')))"
| "Dict2XMLStr opts attrs item itemName parentIsList parent r =
     andThen (if AttrType opts then mapassign attrs ''type'' (VStr (GetXMLType (VMap item))) else Inr attrs)
       (\<lambda>attrs.
          let (valAttrs, raw, flat, item) = extractSpecialAttrs item attrs;
              rawItem = rawValue raw item
          in andThen
               (if IsPrimitiveType rawItem
                then Inr (EscapeXML (case rawItem of VStr v \<Rightarrow> v | _ \<Rightarrow> fmt_v rawItem), item, r)
                else andThen (Convert opts rawItem itemName r)
                       (\<lambda>(s, rawItem', r').
                          Inr (s, (case (raw, rawItem') of (Self, VMap m) \<Rightarrow> m | _ \<Rightarrow> item), r')))
               (\<lambda>(subtree, item, r).
                  if parentIsList \<and> ListHeaders opts then
                    (if length (case valAttrs of None \<Rightarrow> [] | Some a \<Rightarrow> a) > 0 \<and> \<not> ItemWrap opts
                     then
                       let attrString = MakeAttrString valAttrs
                       in Inr (''<'' @ parent @ attrString @ ''>'' @ subtree @ ''</'' @ parent @ ''>'', item, r)
                     else Inr (''<'' @ parent @ ''>'' @ subtree @ ''</'' @ parent @ ''>'', item, r))
                  else if flat \<or> (parentIsList \<and> \<not> ItemWrap opts) then Inr (subtree, item, r)
                  else
                    let attrString = MakeAttrString valAttrs
                    in Inr (''<'' @ itemName @ attrString @ ''>'' @ subtree @ ''</'' @ itemName @ ''>'', item, r)))"
| "List2XMLStr opts attrs items itemName0 r =
     andThen (if AttrType opts then mapassign attrs ''type'' (VStr (GetXMLType (VSeq items))) else Inr attrs)
       (\<lambda>attrs.
          let flat = HasSuffix itemName0 ''@flat'';
              itemName = trimFlat itemName0
          in andThen (ConvertList opts items itemName r)
               (\<lambda>(subtree, items, r).
                  if flat \<or> (length items > 0 \<and> IsPrimitiveType (hd items) \<and> \<not> ItemWrap opts)
                  then Inr (subtree, items, r)
                  else if ListHeaders opts then Inr (subtree, items, r)
                  else
                    let attrString = MakeAttrString attrs
                    in Inr (''<'' @ itemName @ attrString @ ''>'' @ subtree @ ''</'' @ itemName @ ''>'', items, r)))"
| "ConvertList opts items parent r =
     andThen (callItemFunc opts parent) (\<lambda>itemName0.
       let itemName = trimFlat itemName0 in
       writeEach
         (\<lambda>item r.
            let attrs = Some [] in
            case item of
              VBool v \<Rightarrow> andThen (ConvertBool itemName v (AttrType opts) attrs (CDATA opts)) (\<lambda>s. Inr (s, item, r))
            | VInt v \<Rightarrow>
                andThen (ConvertKV (if ItemWrap opts then itemName else parent) item (AttrType opts) attrs (CDATA opts))
                  (\<lambda>s. Inr (s, item, r))
            | VFloat v \<Rightarrow>
                andThen (ConvertKV (if ItemWrap opts then itemName else parent) item (AttrType opts) attrs (CDATA opts))
                  (\<lambda>s. Inr (s, item, r))
            | VStr v \<Rightarrow>
                andThen (ConvertKV (if ItemWrap opts then itemName else parent) item (AttrType opts) attrs (CDATA opts))
                  (\<lambda>s. Inr (s, item, r))
            | VTime rfc str \<Rightarrow>
                andThen (ConvertKV itemName (VStr rfc) (AttrType opts) attrs (CDATA opts)) (\<lambda>s. Inr (s, item, r))
            | VMap v \<Rightarrow>
                andThen (Dict2XMLStr opts attrs v itemName True parent r) (\<lambda>(s, v', r'). Inr (s, VMap v', r'))
            | VSeq v \<Rightarrow>
                andThen (List2XMLStr opts attrs v itemName r) (\<lambda>(s, v', r'). Inr (s, VSeq v', r'))
            | VNil \<Rightarrow> andThen (ConvertNone itemName (AttrType opts) attrs (CDATA opts)) (\<lambda>s. Inr (s, item, r)))
         items r)"
  by pat_completeness auto

termination
proof (relation "measure (\<lambda>x. case x of
      Inl (Inl (opts, obj, parent, r)) \<Rightarrow> 3 * size obj + 1
    | Inl (Inr (opts, m, parent, r)) \<Rightarrow> 3 * size (VMap m)
    | Inr (Inl (opts, attrs, item, itemName, parentIsList, parent, r)) \<Rightarrow> 3 * size (VMap item) + 2
    | Inr (Inr (Inl (opts, attrs, items, itemName, r))) \<Rightarrow> 3 * size (VSeq items) + 2
    | Inr (Inr (Inr (opts, items, parent, r))) \<Rightarrow> 3 * size (VSeq items))", goal_cases)
  case 1
  show ?case by simp
next
  case 2
  then show ?case by simp
next
  case 3
  then show ?case by simp
next
  case (4 opts obj parent r x xa q xb xc xd y xe xf ya x7)
  then have "index obj xa = VMap x7" by simp
  with size_index [of obj xa] show ?case by simp
next
  case (5 opts obj parent r x xa q xb xc xd y xe xf ya x8)
  then have "index obj xa = VSeq x8" by simp
  with size_index [of obj xa] show ?case by simp
next
  case (6 opts attrs item itemName parentIsList parent r x xa xb y xc ya xd yb xe)
  then have "extractSpecialAttrs item x = (xb, xc, xd, yb)" by simp
  from size_rawValue [OF this] 6 show ?case by simp
next
  case 7
  then show ?case by simp
next
  case (8 opts items parent r x xa xb q xc x7)
  with size_member [of xb items] show ?case by simp
next
  case (9 opts items parent r x xa xb q xc x8)
  with size_member [of xb items] show ?case by simp
qed

lemmas conv_simps = Convert.simps ConvertDict.simps Dict2XMLStr.simps List2XMLStr.simps ConvertList.simps
declare conv_simps [simp del]

section \<open>The XPath 3.1 dialect\<close>

fun GetXPath31TagName :: "val \<Rightarrow> string" where
  "GetXPath31TagName VNil = ''null''"
| "GetXPath31TagName (VBool b) = ''boolean''"
| "GetXPath31TagName (VMap m) = ''map''"
| "GetXPath31TagName (VInt i) = ''number''"
| "GetXPath31TagName (VFloat t) = ''number''"
| "GetXPath31TagName (VStr s) = ''string''"
| "GetXPath31TagName (VSeq xs) = ''array''"
| "GetXPath31TagName (VTime rfc str) = ''string''"

definition keyAttr :: "string \<Rightarrow> string" where
  "keyAttr parentKey =
     (if parentKey \<noteq> [] then '' key='' @ [CHR 0x22] @ EscapeXML parentKey @ [CHR 0x22] else [])"

text \<open>
  \<open>ConvertToXPath31\<close>, one equation per tag name. \<open>strings.ToLower\<close> leaves the text of
  a \<open>bool\<close> as it is.
\<close>

function ConvertToXPath31 :: "val \<Rightarrow> string \<Rightarrow> string" where
  "ConvertToXPath31 VNil parentKey = ''<null'' @ keyAttr parentKey @ ''/>''"
| "ConvertToXPath31 (VBool b) parentKey =
     ''<boolean'' @ keyAttr parentKey @ ''>'' @ fmt_v (VBool b) @ ''</boolean>''"
| "ConvertToXPath31 (VInt i) parentKey =
     ''<number'' @ keyAttr parentKey @ ''>'' @ fmt_v (VInt i) @ ''</number>''"
| "ConvertToXPath31 (VFloat t) parentKey =
     ''<number'' @ keyAttr parentKey @ ''>'' @ fmt_v (VFloat t) @ ''</number>''"
| "ConvertToXPath31 (VStr s) parentKey =
     ''<string'' @ keyAttr parentKey @ ''>'' @ EscapeXML (fmt_v (VStr s)) @ ''</string>''"
| "ConvertToXPath31 (VTime rfc str) parentKey =
     ''<string'' @ keyAttr parentKey @ ''>'' @ EscapeXML (fmt_v (VTime rfc str)) @ ''</string>''"
| "ConvertToXPath31 (VMap m) parentKey =
     (let keys = sort (map fst m);
          children = concat (map (\<lambda>k. ConvertToXPath31 (index m k) k) keys)
      in ''<map'' @ keyAttr parentKey @ ''>'' @ children @ ''</map>'')"
| "ConvertToXPath31 (VSeq items) parentKey =
     (let children = concat (map (\<lambda>item. ConvertToXPath31 item []) items)
      in ''<array'' @ keyAttr parentKey @ ''>'' @ children @ ''</array>'')"
  by pat_completeness auto
termination
proof (relation "measure (\<lambda>(obj, parentKey). size obj)", goal_cases)
  case 1
  show ?case by simp
next
  case (2 m parentKey x xa)
  with size_index [of m xa] show ?case by simp
next
  case (3 items parentKey x)
  with size_member [of x items] show ?case by simp
qed

section \<open>Document assembly and the entry points\<close>

definition XPathFunctionsNS :: string where
  "XPathFunctionsNS = ''http://www.w3.org/2005/xpath-functions''"

definition prolog :: string where
  "prolog = ''<?xml version='' @ [CHR 0x22] @ ''1.0'' @ [CHR 0x22] @ '' encoding='' @ [CHR 0x22]
     @ ''UTF-8'' @ [CHR 0x22] @ '' ?>''"

text \<open>The namespace attributes of the root element (\<open>buildNamespaceString\<close>).\<close>

definition buildXSINamespace :: "string \<Rightarrow> val \<Rightarrow> string" where
  "buildXSINamespace prefix v =
     (case v of
        VMap xsiMap \<Rightarrow>
          concat (map (\<lambda>(schemaAttr, schemaVal).
            if schemaAttr = ''schemaInstance''
            then '' xmlns:'' @ prefix @ ''='' @ [CHR 0x22] @ fmt_s schemaVal @ [CHR 0x22]
            else if schemaAttr = ''schemaLocation''
            then '' xsi:'' @ schemaAttr @ ''='' @ [CHR 0x22] @ fmt_s schemaVal @ [CHR 0x22]
            else []) xsiMap)
      | _ \<Rightarrow> [])"

definition buildNamespaceString :: "gomap option \<Rightarrow> string" where
  "buildNamespaceString namespaces =
     (case namespaces of
        None \<Rightarrow> []
      | Some ns \<Rightarrow>
          concat (map (\<lambda>(prefix, v).
            if prefix = ''xsi'' then buildXSINamespace prefix v
            else if prefix = ''xmlns'' then '' xmlns='' @ [CHR 0x22] @ fmt_s v @ [CHR 0x22]
            else '' xmlns:'' @ prefix @ ''='' @ [CHR 0x22] @ fmt_s v @ [CHR 0x22]) ns))"

text \<open>\<open>DictToXML\<close>: a \<open>nil\<close> \<open>ItemFunc\<close> is replaced by the default before anything else.\<close>

definition DictToXML :: "val \<Rightarrow> Options \<Rightarrow> rand \<Rightarrow> panic + (string \<times> val \<times> rand)" where
  "DictToXML obj opts0 r =
     (let opts = (if ItemFunc opts0 = None then opts0\<lparr>ItemFunc := Some DefaultItemFunc\<rparr> else opts0) in
      if XPathFormat opts then
        let xmlContent = ConvertToXPath31 obj [];
            xmlContent =
              (if HasPrefix xmlContent ''<map''
               then Replace xmlContent ''<map'' (''<map xmlns='' @ [CHR 0x22] @ XPathFunctionsNS @ [CHR 0x22]) 1
               else if HasPrefix xmlContent ''<array''
               then Replace xmlContent ''<array'' (''<array xmlns='' @ [CHR 0x22] @ XPathFunctionsNS @ [CHR 0x22]) 1
               else ''<map xmlns='' @ [CHR 0x22] @ XPathFunctionsNS @ [CHR 0x22] @ ''>'' @ xmlContent @ ''</map>'')
        in Inr (prolog @ xmlContent, obj, r)
      else
        let namespaceStr = buildNamespaceString (XMLNamespaces opts) in
        if Root opts then
          andThen (Convert opts obj (CustomRoot opts) r)
            (\<lambda>(outputElem, obj', r').
               Inr (prolog @ ''<'' @ CustomRoot opts @ namespaceStr @ ''>'' @ outputElem
                      @ ''</'' @ CustomRoot opts @ ''>'', obj', r'))
        else Convert opts obj [] r)"

text \<open>
  The converter object of \<open>json2xml.go\<close> and its \<open>ToXML\<close>. A Go function that returns
  \<open>(value, error)\<close> returns \<open>Ok value\<close> or \<open>Err message\<close>; the \<open>any\<close> that \<open>ToXML\<close>
  returns is \<open>nil\<close>, a \<open>string\<close> (pretty) or a \<open>[]byte\<close>. \<open>PrettyPrint\<close> re-serialises
  the document with the encoder of \<open>encoding/xml\<close>; it is a parameter here.
\<close>

record Json2xml =
  data :: val
  wrapper :: string
  root :: bool
  pretty :: bool
  attrType :: bool
  itemWrap :: bool
  xpathFormat :: bool

datatype 'a returned = Ok 'a | Err string

datatype xml = NoXML | PrettyXML string | RawXML string

definition New :: "val \<Rightarrow> Json2xml" where
  "New d = \<lparr> data = d, wrapper = ''all'', root = True, pretty = True, attrType = True,
             itemWrap = True, xpathFormat = False \<rparr>"

definition ToXML ::
  "(string \<Rightarrow> string returned) \<Rightarrow> Json2xml \<Rightarrow> rand \<Rightarrow> panic + (xml returned \<times> val \<times> rand)"
where
  "ToXML PrettyPrint j r =
     (if data j = VNil then Inr (Ok NoXML, data j, r)
      else if (case data j of VMap v \<Rightarrow> length v = 0 | VSeq v \<Rightarrow> length v = 0 | _ \<Rightarrow> False)
      then Inr (Ok NoXML, data j, r)
      else
        let opts = \<lparr> Root = root j, CustomRoot = wrapper j, IDs = False, AttrType = attrType j,
                     ItemWrap = itemWrap j, ItemFunc = Some DefaultItemFunc, CDATA = False,
                     XMLNamespaces = None, ListHeaders = False, XPathFormat = xpathFormat j \<rparr>
        in andThen (DictToXML (data j) opts r)
             (\<lambda>(xmlData, d, r').
                if pretty j then
                  (case PrettyPrint xmlData of
                     Err e \<Rightarrow> Inr (Err (''invalid data: '' @ e), d, r')
                   | Ok prettyXML \<Rightarrow> Inr (Ok (PrettyXML prettyXML), d, r'))
                else Inr (Ok (RawXML xmlData), d, r')))"

text \<open>\<open>ConvertToXML(data, opts)\<close>; \<open>opts\<close> is a pointer and may be \<open>nil\<close>.\<close>

definition ConvertToXML :: "val \<Rightarrow> Options option \<Rightarrow> rand \<Rightarrow> panic + (xml returned \<times> val \<times> rand)" where
  "ConvertToXML d optsp r =
     (if d = VNil then Inr (Ok NoXML, d, r)
      else
        let opts = (case optsp of None \<Rightarrow> DefaultOptions | Some opts \<Rightarrow> opts);
            opts = (if ItemFunc opts = None then opts\<lparr>ItemFunc := Some DefaultItemFunc\<rparr> else opts)
        in andThen (DictToXML d opts r) (\<lambda>(xmlData, d', r'). Inr (Ok (RawXML xmlData), d', r')))"

section \<open>Reading the claims\<close>

text \<open>
  A CDATA terminator \<open>]]>\<close> inside a text is split when the text goes on with the opening
  marker of the next section. \<open>unsplit_free\<close> says that every terminator in a text is
  split; \<open>cdata_sections\<close> recognises one or more complete CDATA sections, each running from
  an opening marker to the first terminator after it, with nothing before, between or
  after them. \<open>between_markers\<close> is a text without its first nine and its last three
  characters.
\<close>

fun unsplit_free :: "string \<Rightarrow> bool" where
  "unsplit_free [] = True"
| "unsplit_free (c # t) =
     ((HasPrefix (c # t) '']]>'' \<longrightarrow> HasPrefix (drop 3 (c # t)) ''<![CDATA['') \<and> unsplit_free t)"

function cdata_body :: "string \<Rightarrow> bool" where
  "cdata_body [] = False"
| "cdata_body (c # t) =
     (if HasPrefix (c # t) '']]>''
      then (let r = drop 3 (c # t) in r = [] \<or> (HasPrefix r ''<![CDATA['' \<and> cdata_body (drop 9 r)))
      else cdata_body t)"
  by pat_completeness auto
termination
  by (relation "measure length") auto

definition cdata_sections :: "string \<Rightarrow> bool" where
  "cdata_sections s = (HasPrefix s ''<![CDATA['' \<and> cdata_body (drop 9 s))"

definition between_markers :: "string \<Rightarrow> string" where
  "between_markers w = take (length w - 12) (drop 9 w)"

text \<open>
  A key that no rule of \<open>MakeValidXMLName\<close> repairs: the escaped key is not a legal name
  and not numeric, and neither its form with underscores for blanks nor its form without
  colons and \<open>@flat\<close> is a legal name.
\<close>

definition unfixable :: "string \<Rightarrow> bool" where
  "unfixable key0 =
     (let key = EscapeXML key0
      in \<not> KeyIsValidXML key \<and> \<not> isNumeric key
         \<and> \<not> KeyIsValidXML (ReplaceAll key '' '' ''_'')
         \<and> \<not> KeyIsValidXML (ReplaceAll (ReplaceAll key '':'' []) ''@flat'' []))"

definition bikes :: val where
  "bikes = VMap [(''bike'', VSeq [VStr ''blue'', VStr ''green''])]"

text \<open>A call returns when it does not panic.\<close>

definition returns :: "panic + 'a \<Rightarrow> bool" where
  "returns m = (\<exists>x. m = Inr x)"

text \<open>What a call wrote and the random source as it left it, or its panic.\<close>

definition emitted :: "panic + (string \<times> 'a \<times> rand) \<Rightarrow> panic + (string \<times> rand)" where
  "emitted m = (case m of Inl e \<Rightarrow> Inl e | Inr (s, x, r) \<Rightarrow> Inr (s, r))"

text \<open>The body of the loop of \<open>ConvertDict\<close>: what it does with one key.\<close>

definition dictEntry ::
  "Options \<Rightarrow> gomap \<Rightarrow> string \<Rightarrow> string \<Rightarrow> rand \<Rightarrow> panic + (string \<times> val \<times> rand)" where
  "dictEntry opts obj parent key0 r0 =
     (let val = index obj key0;
          (attrs, r) =
            (if IDs opts
             then (let (id, r') = GetUniqueID parent r0 in (Some [(''id'', VStr id)], r'))
             else (Some [], r0));
          (key, attrs) = MakeValidXMLName key0 attrs
      in case val of
           VBool v \<Rightarrow> andThen (ConvertBool key v (AttrType opts) attrs (CDATA opts)) (\<lambda>s. Inr (s, val, r))
         | VInt v \<Rightarrow> andThen (ConvertKV key val (AttrType opts) attrs (CDATA opts)) (\<lambda>s. Inr (s, val, r))
         | VFloat v \<Rightarrow> andThen (ConvertKV key val (AttrType opts) attrs (CDATA opts)) (\<lambda>s. Inr (s, val, r))
         | VStr v \<Rightarrow> andThen (ConvertKV key val (AttrType opts) attrs (CDATA opts)) (\<lambda>s. Inr (s, val, r))
         | VTime rfc str \<Rightarrow>
             andThen (ConvertKV key (VStr rfc) (AttrType opts) attrs (CDATA opts)) (\<lambda>s. Inr (s, val, r))
         | VMap v \<Rightarrow>
             andThen (Dict2XMLStr opts attrs v key False parent r) (\<lambda>(s, v', r'). Inr (s, VMap v', r'))
         | VSeq v \<Rightarrow>
             andThen (List2XMLStr opts attrs v key r) (\<lambda>(s, v', r'). Inr (s, VSeq v', r'))
         | VNil \<Rightarrow> andThen (ConvertNone key (AttrType opts) attrs (CDATA opts)) (\<lambda>s. Inr (s, val, r)))"

text \<open>
  The keys that \<open>Dict2XMLStr\<close> deletes from a map: \<open>@val\<close>, \<open>@flat\<close>, and \<open>@attrs\<close> when
  the map holds a map under it.
\<close>

definition deleted_key :: "gomap \<Rightarrow> string \<Rightarrow> bool" where
  "deleted_key item k =
     (k = ''@val'' \<or> k = ''@flat''
      \<or> (k = ''@attrs'' \<and> (case map_of item ''@attrs'' of Some (VMap ca) \<Rightarrow> True | _ \<Rightarrow> False)))"

text \<open>
  Two values of the same kind: both maps, or both sequences, or the same primitive value.
\<close>

definition same_kind :: "val \<Rightarrow> val \<Rightarrow> bool" where
  "same_kind v v' =
     (case v of
        VMap m \<Rightarrow> (case v' of VMap m' \<Rightarrow> True | _ \<Rightarrow> False)
      | VSeq xs \<Rightarrow> (case v' of VSeq xs' \<Rightarrow> True | _ \<Rightarrow> False)
      | _ \<Rightarrow> v' = v)"

text \<open>Two maps with meta keys, for the examples.\<close>

definition meta_map :: val where
  "meta_map = VMap [(''@attrs'', VMap [(''id'', VStr ''1'')]), (''@val'', VStr ''x''), (''@flat'', VBool True)]"

definition nested_meta :: val where
  "nested_meta = VMap [(''a'', VMap [(''@attrs'', VMap [(''id'', VStr ''1'')]), (''k'', VStr ''v'')])]"

definition tagged :: gomap where
  "tagged = [(''@attrs'', VMap [(''id'', VStr ''7'')]), (''k'', VStr ''v''), (''@flat'', VBool False)]"

section \<open>Evaluation rules\<close>

lemma Replace_Nil [simp]: "Replace [] old new n = []"
  by (simp add: Replace.simps)

lemma Replace_Cons [simp]:
  "Replace (c # s) old new n =
     (if n = 0 \<or> old = [] then c # s
      else if HasPrefix (c # s) old then new @ Replace (drop (length old) (c # s)) old new (n - 1)
      else c # Replace s old new n)"
  by (subst Replace.simps) simp

lemma HasPrefix_Nil [simp]: "HasPrefix s []"
  by (simp add: HasPrefix_def)

lemma HasPrefix_Cons [simp]: "HasPrefix (c # s) (d # p) = (c = d \<and> HasPrefix s p)"
  by (auto simp: HasPrefix_def)

lemma HasPrefix_Nil_left [simp]: "HasPrefix [] p = (p = [])"
  by (auto simp: HasPrefix_def)

lemma Replace_char:
  "n < 0 \<Longrightarrow> Replace s [a] new n = concat (map (\<lambda>c. if c = a then new else [c]) s)"
  by (induction s arbitrary: n) auto

lemma ReplaceAll_char:
  "ReplaceAll s [a] new = concat (map (\<lambda>c. if c = a then new else [c]) s)"
  by (simp add: ReplaceAll_def Replace_char)

lemma concat_map_concat_map:
  "concat (map g (concat (map f s))) = concat (map (\<lambda>c. concat (map g (f c))) s)"
  by (induction s) auto

lemma EscapeXML_char_by_char: "EscapeXML s = escape_single_pass s"
  unfolding EscapeXML_def escape_single_pass_def Let_def ReplaceAll_char concat_map_concat_map
  by (rule arg_cong [where f = concat], rule map_cong [OF refl]) (simp add: escape_char_def)

lemmas eval_defs =
  DictToXML_def DefaultOptions_def conv_simps callItemFunc_def DefaultItemFunc_def
  index_def MakeValidXMLName_def KeyIsValidXML_def decoder_accepts_name_def name_char_def
  is_letter_def is_digit_def isNumeric_def
  EscapeXML_char_by_char escape_single_pass_def escape_char_def
  ConvertKV_def ConvertBool_def ConvertNone_def MakeAttrString_def mapassign_def
  buildNamespaceString_def prolog_def trimFlat_def HasSuffix_def IsPrimitiveType_def
  ReplaceAll_def XPathFunctionsNS_def keyAttr_def extractSpecialAttrs_def rawValue_def

section \<open>The claims\<close>

subsection \<open>C1: the document for a one-entry mapping\<close>

text \<open>
  C1. The mapping \<open>{"mock":"payload"}\<close>, converted in the default dialect with the root
  element on, the root name \<open>root\<close> and \<open>AttrType\<close> off (the other options as
  \<open>DefaultOptions\<close> sets them), gives exactly the text
  \<open><?xml version="1.0" encoding="UTF-8" ?><root><mock>payload</mock></root>\<close>;
  the mapping and the random source are left as they were.
\<close>

theorem DictToXML_mock_payload:
  \<open>DictToXML (VMap [(''mock'', VStr ''payload'')]) (DefaultOptions\<lparr>AttrType := False\<rparr>) r
   = Inr (''<?xml version="1.0" encoding="UTF-8" ?><root><mock>payload</mock></root>'',
          VMap [(''mock'', VStr ''payload'')], r)\<close>
  by (simp add: eval_defs)

subsection \<open>C4: a list of primitives with and without item wrapping\<close>

text \<open>
  C4. The mapping \<open>{"bike":["blue","green"]}\<close> (\<open>bikes\<close>), converted in the default dialect
  with the root off and \<open>AttrType\<close> off, gives
  \<open><bike><item>blue</item><item>green</item></bike>\<close> when \<open>ItemWrap\<close> is on, and
  \<open><bike>blue</bike><bike>green</bike>\<close>, each item under the parent's tag and no
  wrapping element, when \<open>ItemWrap\<close> is off.
\<close>

theorem DictToXML_bike_item_wrap:
  "DictToXML bikes (DefaultOptions\<lparr>Root := False, AttrType := False, ItemWrap := True\<rparr>) r
     = Inr (''<bike><item>blue</item><item>green</item></bike>'', bikes, r)
   \<and> DictToXML bikes (DefaultOptions\<lparr>Root := False, AttrType := False, ItemWrap := False\<rparr>) r
     = Inr (''<bike>blue</bike><bike>green</bike>'', bikes, r)"
  by (simp add: bikes_def eval_defs)

subsection \<open>C5: numeric keys and keys beyond repair\<close>

lemma escape_digits:
  "list_all (\<lambda>c. \<not> (c < CHR ''0'' \<or> c > CHR ''9'')) s \<Longrightarrow> escape_single_pass s = s"
  by (induction s) (auto simp: escape_single_pass_def escape_char_def)

lemma isNumeric_escape: "isNumeric key \<Longrightarrow> EscapeXML key = key"
  by (auto simp: isNumeric_def EscapeXML_char_by_char escape_digits split: if_splits)

lemma isNumeric_invalid: "isNumeric key \<Longrightarrow> \<not> KeyIsValidXML key"
  by (cases key)
    (auto simp: isNumeric_def KeyIsValidXML_def decoder_accepts_name_def is_letter_def
       less_eq_char_def less_char_def split: if_splits)

text \<open>
  C5. \<open>MakeValidXMLName\<close> maps a key of ASCII digits only (\<open>isNumeric\<close>), such as
  \<open>123\<close>, to the key with \<open>n\<close> in front and returns the attributes as they came. A key
  that no rule repairs (\<open>unfixable\<close>), such as \<open>/invalid/path\<close> or the empty key, becomes
  the element name \<open>key\<close>, and the returned attribute set holds the escaped key under
  \<open>name\<close> and every other attribute as before.
\<close>

theorem MakeValidXMLName_numeric_and_unfixable:
  \<open>(isNumeric key \<longrightarrow> MakeValidXMLName key attrs = (''n'' @ key, attrs))
   \<and> (unfixable key \<longrightarrow>
        (\<exists>a. MakeValidXMLName key attrs = (''key'', Some a)
             \<and> map_of a ''name'' = Some (VStr (EscapeXML key))
             \<and> (\<forall>k. k \<noteq> ''name'' \<longrightarrow> map_of a k = map_of (case attrs of None \<Rightarrow> [] | Some a0 \<Rightarrow> a0) k)))
   \<and> MakeValidXMLName ''123'' attrs = (''n123'', attrs)
   \<and> unfixable ''/invalid/path'' \<and> unfixable []\<close>
proof (intro conjI impI)
  assume n: "isNumeric key"
  then show "MakeValidXMLName key attrs = (''n'' @ key, attrs)"
    using isNumeric_escape [OF n] isNumeric_invalid [OF n] by (simp add: MakeValidXMLName_def)
next
  assume u: "unfixable key"
  let ?old = "case attrs of None \<Rightarrow> [] | Some a0 \<Rightarrow> a0"
  let ?new = "AList.update ''name'' (VStr (EscapeXML key)) ?old"
  have "MakeValidXMLName key attrs = (''key'', Some ?new)"
    using u by (simp add: unfixable_def MakeValidXMLName_def Let_def)
  moreover have "map_of ?new ''name'' = Some (VStr (EscapeXML key))"
    by (simp add: update_conv')
  moreover have "\<forall>k. k \<noteq> ''name'' \<longrightarrow> map_of ?new k = map_of ?old k"
    by (simp add: update_conv')
  ultimately show "\<exists>a. MakeValidXMLName key attrs = (''key'', Some a)
      \<and> map_of a ''name'' = Some (VStr (EscapeXML key))
      \<and> (\<forall>k. k \<noteq> ''name'' \<longrightarrow> map_of a k = map_of ?old k)"
    by blast
next
  show "MakeValidXMLName ''123'' attrs = (''n123'', attrs)"
    by (simp add: eval_defs)
next
  show "unfixable ''/invalid/path''" by (simp add: unfixable_def eval_defs)
next
  show "unfixable []" by (simp add: unfixable_def eval_defs)
qed

theorem MakeValidXMLName_numeric_and_unfixable_witness:
  \<open>isNumeric ''123'' \<and> MakeValidXMLName ''123'' None = (''n123'', None)
   \<and> unfixable ''/invalid/path''
   \<and> MakeValidXMLName ''/invalid/path'' None = (''key'', Some [(''name'', VStr ''/invalid/path'')])
   \<and> MakeValidXMLName [] None = (''key'', Some [(''name'', VStr [])])\<close>
proof -
  have n: "isNumeric ''123''" by (simp add: isNumeric_def)
  from MakeValidXMLName_numeric_and_unfixable [of "''123''" None] n
  have a: "MakeValidXMLName ''123'' None = (''n123'', None)" by simp
  have b: "MakeValidXMLName ''/invalid/path'' None = (''key'', Some [(''name'', VStr ''/invalid/path'')])"
    by (simp add: eval_defs)
  have c: "MakeValidXMLName [] None = (''key'', Some [(''name'', VStr [])])"
    by (simp add: eval_defs)
  from MakeValidXMLName_numeric_and_unfixable [of "''/invalid/path''" None]
  have "unfixable ''/invalid/path''" by simp
  with n a b c show ?thesis by simp
qed

subsection \<open>C6: escaping in one pass\<close>

text \<open>
  C6. \<open>EscapeXML\<close> replaces the five characters \<open>& " ' < >\<close> by their entities as one pass
  over the text does (\<open>escape_single_pass\<close>): an entity it has produced is never escaped
  again, and an ampersand that was in the input is escaped like any other. So
  \<open>EscapeXML("&")\<close> is \<open>&amp;\<close> and \<open>EscapeXML("&amp;")\<close> is \<open>&amp;amp;\<close>.
\<close>

theorem EscapeXML_single_pass:
  "EscapeXML s = escape_single_pass s
   \<and> EscapeXML ''&'' = ''&amp;'' \<and> EscapeXML ''&amp;'' = ''&amp;amp;''"
  by (simp add: EscapeXML_char_by_char) (simp add: escape_single_pass_def escape_char_def)

subsection \<open>C7: CDATA wrapping\<close>

lemma HasPrefix_append: "HasPrefix s p \<Longrightarrow> HasPrefix (s @ r) p"
  by (metis HasPrefix_def append_eq_conv_conj append.assoc)

lemma Replace_head_gt:
  "n < 0 \<Longrightarrow> HasPrefix (Replace s '']]>'' '']]]]><![CDATA[>'' n @ r) ''>'' \<Longrightarrow> s \<noteq> [] \<Longrightarrow> HasPrefix s ''>''"
  by (cases s) (auto split: if_splits)

lemma Replace_head_bracket_gt:
  "n < 0 \<Longrightarrow> HasPrefix (Replace s '']]>'' '']]]]><![CDATA[>'' n @ '']]>'') '']>'' \<Longrightarrow> HasPrefix s '']>''"
proof (cases s)
  case Nil
  then show "HasPrefix (Replace s '']]>'' '']]]]><![CDATA[>'' n @ '']]>'') '']>'' \<Longrightarrow> HasPrefix s '']>''" by simp
next
  case (Cons c s')
  assume n: "n < 0" and h: "HasPrefix (Replace s '']]>'' '']]]]><![CDATA[>'' n @ '']]>'') '']>''"
  show ?thesis
  proof (cases "HasPrefix (c # s') '']]>''")
    case True
    with h Cons n show ?thesis by simp
  next
    case False
    with h Cons n have c: "c = CHR '']''" and g: "HasPrefix (Replace s' '']]>'' '']]]]><![CDATA[>'' n @ '']]>'') ''>''"
      by (auto split: if_splits)
    have "s' \<noteq> []" using g by (cases s') auto
    with Replace_head_gt [OF n g] have "HasPrefix s' ''>''" by simp
    with c Cons show ?thesis by (cases s') auto
  qed
qed

lemma unsplit_free_Replace:
  "n < 0 \<Longrightarrow> unsplit_free (Replace s '']]>'' '']]]]><![CDATA[>'' n)"
proof (induction s "'']]>''" "'']]]]><![CDATA[>''" n rule: Replace.induct)
  case (1 s n)
  show ?case
  proof (cases s)
    case Nil
    then show ?thesis by simp
  next
    case (Cons c s')
    show ?thesis
    proof (cases "HasPrefix s '']]>''")
      case True
      with 1 Cons have "unsplit_free (Replace (drop (length '']]>'') s) '']]>'' '']]]]><![CDATA[>'' (n - 1))" by simp
      with True Cons 1(3) show ?thesis by simp
    next
      case False
      with 1 Cons have ih: "unsplit_free (Replace s' '']]>'' '']]]]><![CDATA[>'' n)" by simp
      have "\<not> HasPrefix (c # Replace s' '']]>'' '']]]]><![CDATA[>'' n) '']]>''"
      proof
        assume a: "HasPrefix (c # Replace s' '']]>'' '']]]]><![CDATA[>'' n) '']]>''"
        then have c: "c = CHR '']''" and p: "HasPrefix (Replace s' '']]>'' '']]]]><![CDATA[>'' n) '']>''" by auto
        from p have "HasPrefix (Replace s' '']]>'' '']]]]><![CDATA[>'' n @ '']]>'') '']>''"
          by (rule HasPrefix_append)
        from Replace_head_bracket_gt [OF 1(3) this] c False Cons show False by simp
      qed
      moreover have "Replace s '']]>'' '']]]]><![CDATA[>'' n = c # Replace s' '']]>'' '']]]]><![CDATA[>'' n"
        using False Cons 1(3) by auto
      ultimately show ?thesis using ih by (simp del: HasPrefix_Cons)
    qed
  qed
qed

lemma cdata_body_Replace:
  "n < 0 \<Longrightarrow> cdata_body (Replace s '']]>'' '']]]]><![CDATA[>'' n @ '']]>'')"
proof (induction s "'']]>''" "'']]]]><![CDATA[>''" n rule: Replace.induct)
  case (1 s n)
  show ?case
  proof (cases s)
    case Nil
    then show ?thesis by simp
  next
    case (Cons c s')
    show ?thesis
    proof (cases "HasPrefix s '']]>''")
      case True
      with 1 Cons have "cdata_body (Replace (drop (length '']]>'') s) '']]>'' '']]]]><![CDATA[>'' (n - 1) @ '']]>'')" by simp
      with True Cons 1(3) show ?thesis by simp
    next
      case False
      with 1 Cons have ih: "cdata_body (Replace s' '']]>'' '']]]]><![CDATA[>'' n @ '']]>'')" by simp
      have "\<not> HasPrefix (c # Replace s' '']]>'' '']]]]><![CDATA[>'' n @ '']]>'') '']]>''"
      proof
        assume a: "HasPrefix (c # Replace s' '']]>'' '']]]]><![CDATA[>'' n @ '']]>'') '']]>''"
        then have c: "c = CHR '']''" and "HasPrefix (Replace s' '']]>'' '']]]]><![CDATA[>'' n @ '']]>'') '']>''" by auto
        from Replace_head_bracket_gt [OF 1(3) this(2)] c False Cons show False by simp
      qed
      moreover have "Replace s '']]>'' '']]]]><![CDATA[>'' n = c # Replace s' '']]>'' '']]]]><![CDATA[>'' n"
        using False Cons 1(3) by auto
      ultimately show ?thesis using ih by (simp del: HasPrefix_Cons)
    qed
  qed
qed

text \<open>
  C7. For every text \<open>s\<close>, \<open>WrapCDATA s\<close> starts with \<open><![CDATA[\<close> and ends with \<open>]]>\<close>;
  the text between that opening marker and that last closing marker holds no terminator
  \<open>]]>\<close> that is not split; and the whole result is a sequence of complete CDATA sections.
\<close>

theorem WrapCDATA_valid:
  "HasPrefix (WrapCDATA s) ''<![CDATA['' \<and> HasSuffix (WrapCDATA s) '']]>''
   \<and> WrapCDATA s = ''<![CDATA['' @ between_markers (WrapCDATA s) @ '']]>''
   \<and> unsplit_free (between_markers (WrapCDATA s))
   \<and> cdata_sections (WrapCDATA s)"
proof -
  let ?r = "Replace s '']]>'' '']]]]><![CDATA[>'' (- 1)"
  have w: "WrapCDATA s = ''<![CDATA['' @ ?r @ '']]>''"
    by (simp add: WrapCDATA_def ReplaceAll_def)
  have b: "between_markers (WrapCDATA s) = ?r"
    by (simp add: w between_markers_def)
  have p: "HasPrefix (WrapCDATA s) ''<![CDATA[''" by (simp add: w)
  have q: "HasSuffix (WrapCDATA s) '']]>''" by (simp add: w HasSuffix_def)
  have u: "unsplit_free ?r" by (rule unsplit_free_Replace) simp
  have c: "cdata_sections (WrapCDATA s)"
    unfolding cdata_sections_def using cdata_body_Replace [of "- 1" s] by (simp add: w)
  from w b p q u c show ?thesis by simp
qed

theorem WrapCDATA_valid_witness:
  "WrapCDATA ''a]]>b'' = ''<![CDATA[a]]]]><![CDATA[>b]]>''
   \<and> between_markers (WrapCDATA ''a]]>b'') = ''a]]]]><![CDATA[>b''
   \<and> unsplit_free (between_markers (WrapCDATA ''a]]>b''))
   \<and> cdata_sections (WrapCDATA ''a]]>b'')
   \<and> \<not> unsplit_free ''a]]>b'' \<and> \<not> cdata_sections ''<![CDATA[a]]>b]]>''"
  using WrapCDATA_valid [of "''a]]>b''"]
  by (simp add: WrapCDATA_def ReplaceAll_def between_markers_def cdata_sections_def)

subsection \<open>C9: empty and nil data at the entry points\<close>

text \<open>
  C9. \<open>Json2xml.ToXML\<close> returns \<open>nil\<close> and no error for \<open>nil\<close> data, for an empty mapping
  and for an empty sequence. \<open>ConvertToXML\<close> returns \<open>nil\<close> for \<open>nil\<close> data only: for an
  empty mapping or an empty sequence it returns, under the default options, the document
  \<open><?xml version="1.0" encoding="UTF-8" ?><root></root>\<close>.
\<close>

theorem empty_data_at_entry_points:
  \<open>ToXML PrettyPrint (New VNil) r = Inr (Ok NoXML, VNil, r)
   \<and> ToXML PrettyPrint (New (VMap [])) r = Inr (Ok NoXML, VMap [], r)
   \<and> ToXML PrettyPrint (New (VSeq [])) r = Inr (Ok NoXML, VSeq [], r)
   \<and> ConvertToXML VNil optsp r = Inr (Ok NoXML, VNil, r)
   \<and> ConvertToXML (VMap []) None r
       = Inr (Ok (RawXML ''<?xml version="1.0" encoding="UTF-8" ?><root></root>''), VMap [], r)
   \<and> ConvertToXML (VSeq []) None r
       = Inr (Ok (RawXML ''<?xml version="1.0" encoding="UTF-8" ?><root></root>''), VSeq [], r)\<close>
  by (simp add: ToXML_def New_def ConvertToXML_def eval_defs)

subsection \<open>C2: the transcoder returns\<close>

lemma returns_Inr [simp]: "returns (Inr x)"
  by (simp add: returns_def)

lemma returns_Inl [simp]: "\<not> returns (Inl e)"
  by (simp add: returns_def)

lemma returns_andThen:
  "returns m \<Longrightarrow> (\<And>x. m = Inr x \<Longrightarrow> returns (f x)) \<Longrightarrow> returns (andThen m f)"
  by (auto simp: returns_def)

lemma returns_writeEach:
  "(\<And>x q. x \<in> set xs \<Longrightarrow> returns (f x q)) \<Longrightarrow> returns (writeEach f xs r)"
proof (induction xs arbitrary: r)
  case Nil
  show ?case by simp
next
  case (Cons x xs)
  show ?case
    by (auto intro!: returns_andThen Cons.IH Cons.prems)
qed

lemma MakeValidXMLName_Some: "\<exists>k a'. MakeValidXMLName key (Some a) = (k, Some a')"
  by (simp add: MakeValidXMLName_def Let_def)

lemma mapassign_Some [simp]: "mapassign (Some a) k v = Inr (Some (AList.update k v a))"
  by (simp add: mapassign_def)

lemma returns_ConvertKV [simp]: "returns (ConvertKV key v t attrs c)"
proof -
  obtain a where a: "(case attrs of None \<Rightarrow> Some [] | Some a \<Rightarrow> Some a) = Some a"
    by (cases attrs) auto
  obtain k a' where "MakeValidXMLName key (Some a) = (k, Some a')"
    using MakeValidXMLName_Some by blast
  with a show ?thesis by (simp add: ConvertKV_def Let_def)
qed

lemma returns_ConvertBool [simp]: "returns (ConvertBool key v t attrs c)"
proof -
  obtain a where a: "(case attrs of None \<Rightarrow> Some [] | Some a \<Rightarrow> Some a) = Some a"
    by (cases attrs) auto
  obtain k a' where "MakeValidXMLName key (Some a) = (k, Some a')"
    using MakeValidXMLName_Some by blast
  with a show ?thesis by (simp add: ConvertBool_def Let_def)
qed

lemma returns_ConvertNone [simp]: "returns (ConvertNone key t attrs c)"
proof -
  obtain a where a: "(case attrs of None \<Rightarrow> Some [] | Some a \<Rightarrow> Some a) = Some a"
    by (cases attrs) auto
  obtain k a' where "MakeValidXMLName key (Some a) = (k, Some a')"
    using MakeValidXMLName_Some by blast
  with a show ?thesis by (simp add: ConvertNone_def Let_def)
qed

lemma returns_type_attr:
  "(t \<Longrightarrow> attrs \<noteq> None) \<Longrightarrow> returns (if t then mapassign attrs k v else Inr attrs)"
  by (cases attrs) auto

lemma transcoder_returns:
  "ItemFunc opts \<noteq> None \<Longrightarrow> returns (Convert opts obj parent r)"
  "ItemFunc opts \<noteq> None \<Longrightarrow> returns (ConvertDict opts m parent r)"
  "ItemFunc opts \<noteq> None \<Longrightarrow> (AttrType opts \<Longrightarrow> attrs \<noteq> None)
     \<Longrightarrow> returns (Dict2XMLStr opts attrs item itemName parentIsList parent r)"
  "ItemFunc opts \<noteq> None \<Longrightarrow> (AttrType opts \<Longrightarrow> attrs \<noteq> None)
     \<Longrightarrow> returns (List2XMLStr opts attrs items itemName r)"
  "ItemFunc opts \<noteq> None \<Longrightarrow> returns (ConvertList opts items parent r)"
proof (induction opts obj parent r and opts m parent r and opts attrs item itemName parentIsList parent r
    and opts attrs items itemName r and opts items parent r
    rule: Convert_ConvertDict_Dict2XMLStr_List2XMLStr_ConvertList.induct)
  case (1 opts obj parent r)
  from 1(3) obtain f where f: "ItemFunc opts = Some f" by auto
  show ?case
    apply (subst Convert.simps)
    apply (rule returns_andThen)
     apply (simp add: callItemFunc_def f)
    apply (cases obj)
           apply (auto intro!: returns_andThen 1)
    done
next
  case (2 opts obj parent r)
  have step: "returns
      (let val = index obj key;
           (attrs, r) =
             (if IDs opts
              then (let (id, r') = GetUniqueID parent q in (Some [(''id'', VStr id)], r'))
              else (Some [], q));
           (key, attrs) = MakeValidXMLName key attrs
       in case val of
            VBool v \<Rightarrow> andThen (ConvertBool key v (AttrType opts) attrs (CDATA opts)) (\<lambda>s. Inr (s, val, r))
          | VInt v \<Rightarrow> andThen (ConvertKV key val (AttrType opts) attrs (CDATA opts)) (\<lambda>s. Inr (s, val, r))
          | VFloat v \<Rightarrow> andThen (ConvertKV key val (AttrType opts) attrs (CDATA opts)) (\<lambda>s. Inr (s, val, r))
          | VStr v \<Rightarrow> andThen (ConvertKV key val (AttrType opts) attrs (CDATA opts)) (\<lambda>s. Inr (s, val, r))
          | VTime rfc str \<Rightarrow>
              andThen (ConvertKV key (VStr rfc) (AttrType opts) attrs (CDATA opts)) (\<lambda>s. Inr (s, val, r))
          | VMap v \<Rightarrow>
              andThen (Dict2XMLStr opts attrs v key False parent r) (\<lambda>(s, v', r'). Inr (s, VMap v', r'))
          | VSeq v \<Rightarrow>
              andThen (List2XMLStr opts attrs v key r) (\<lambda>(s, v', r'). Inr (s, VSeq v', r'))
          | VNil \<Rightarrow> andThen (ConvertNone key (AttrType opts) attrs (CDATA opts)) (\<lambda>s. Inr (s, val, r)))"
    if key: "key \<in> set (sort (map fst obj))" for key q
  proof -
    have "\<exists>a0 q'. (if IDs opts
              then (let (id, r') = GetUniqueID parent q in (Some [(''id'', VStr id)], r'))
              else (Some [], q)) = (Some a0, q')"
      by (cases "GetUniqueID parent q") simp
    then obtain a0 q' where xc: "(if IDs opts
              then (let (id, r') = GetUniqueID parent q in (Some [(''id'', VStr id)], r'))
              else (Some [], q)) = (Some a0, q')"
      by blast
    obtain k' a' where mv: "MakeValidXMLName key (Some a0) = (k', Some a')"
      using MakeValidXMLName_Some by blast
    note xc' = xc [unfolded Let_def]
    show ?thesis
    proof (cases "index obj key")
      case (VMap x7)
      have "returns (Dict2XMLStr opts (Some a') x7 k' False parent q')"
        by (rule 2(1) [OF refl key refl refl xc [symmetric] refl mv [symmetric] VMap 2(3)]) simp
      then show ?thesis
        unfolding Let_def xc' prod.case mv VMap val.case
        by (auto intro!: returns_andThen)
    next
      case (VSeq x8)
      have "returns (List2XMLStr opts (Some a') x8 k' q')"
        by (rule 2(2) [OF refl key refl refl xc [symmetric] refl mv [symmetric] VSeq 2(3)]) simp
      then show ?thesis
        unfolding Let_def xc' prod.case mv VSeq val.case
        by (auto intro!: returns_andThen)
    qed (simp_all only: Let_def xc' prod.case mv val.case, auto intro!: returns_andThen)
  qed
  show ?case
    apply (subst ConvertDict.simps)
    apply (simp only: Let_def)
    apply (rule returns_andThen)
     apply (rule returns_writeEach)
     apply (rule step [unfolded Let_def], assumption)
    apply auto
    done
next
  case (3 opts attrs item itemName parentIsList parent r)
  have t: "returns (if AttrType opts then mapassign attrs ''type'' (VStr (GetXMLType (VMap item))) else Inr attrs)"
    by (rule returns_type_attr) (rule 3(3))
  from t obtain x where
    x: "(if AttrType opts then mapassign attrs ''type'' (VStr (GetXMLType (VMap item))) else Inr attrs) = Inr x"
    by (auto simp: returns_def)
  obtain valAttrs raw flat item' where e: "extractSpecialAttrs item x = (valAttrs, raw, flat, item')"
    by (cases "extractSpecialAttrs item x") auto
  have sub: "returns
      (if IsPrimitiveType (rawValue raw item')
       then Inr (EscapeXML (case rawValue raw item' of VStr v \<Rightarrow> v | _ \<Rightarrow> fmt_v (rawValue raw item')), item', r)
       else andThen (Convert opts (rawValue raw item') itemName r)
              (\<lambda>(s, rawItem', r').
                 Inr (s, (case (raw, rawItem') of (Self, VMap m) \<Rightarrow> m | _ \<Rightarrow> item'), r')))"
  proof (cases "IsPrimitiveType (rawValue raw item')")
    case True
    then show ?thesis by simp
  next
    case False
    have "returns (Convert opts (rawValue raw item') itemName r)"
      by (rule 3(1) [OF x refl e [symmetric] refl refl refl False 3(2)])
    with False show ?thesis by (auto intro!: returns_andThen)
  qed
  show ?case
    apply (subst Dict2XMLStr.simps)
    apply (simp only: x andThen_Inr e prod.case Let_def)
    apply (rule returns_andThen [OF sub [unfolded prod.case]])
    apply (auto split: prod.splits)
    done
next
  case (4 opts attrs items itemName0 r)
  have t: "returns (if AttrType opts then mapassign attrs ''type'' (VStr (GetXMLType (VSeq items))) else Inr attrs)"
    by (rule returns_type_attr) (rule 4(3))
  show ?case
    apply (subst List2XMLStr.simps)
    apply (rule returns_andThen [OF t])
    apply (simp only: Let_def)
    apply (rule returns_andThen)
     apply (rule 4(1) [OF _ refl refl 4(2)], assumption)
    apply (auto split: prod.splits)
    done
next
  case (5 opts items parent r)
  from 5(3) obtain f where f: "ItemFunc opts = Some f" by auto
  then have c: "callItemFunc opts parent = Inr (f parent)" by (simp add: callItemFunc_def)
  show ?case
    apply (subst ConvertList.simps)
    apply (simp only: c andThen_Inr Let_def)
    apply (rule returns_writeEach)
    subgoal for item q
      apply (cases item)
             apply (auto intro!: returns_andThen 5(1) [OF c refl _ refl] 5(2) [OF c refl _ refl] 5(3))
      done
    done
qed

text \<open>
  C2, as the code has it. For every value, every parent name and every state of the random
  source, \<open>Convert\<close> returns a text (it does not panic) under every option configuration
  whose \<open>ItemFunc\<close> is set; and \<open>DictToXML\<close>, which installs the default \<open>ItemFunc\<close> when
  it is \<open>nil\<close>, returns under every option configuration.
\<close>

theorem Convert_returns:
  "(ItemFunc opts \<noteq> None \<longrightarrow> (\<exists>out obj' r'. Convert opts obj parent r = Inr (out, obj', r')))
   \<and> (\<exists>out obj' r'. DictToXML obj opts r = Inr (out, obj', r'))"
proof
  show "ItemFunc opts \<noteq> None \<longrightarrow> (\<exists>out obj' r'. Convert opts obj parent r = Inr (out, obj', r'))"
    using transcoder_returns(1) [of opts obj parent r] by (auto simp: returns_def)
next
  let ?opts = "if ItemFunc opts = None then opts\<lparr>ItemFunc := Some DefaultItemFunc\<rparr> else opts"
  have i: "ItemFunc ?opts \<noteq> None" by simp
  have "returns (Convert ?opts obj parent' r)" for parent'
    by (rule transcoder_returns(1) [OF i])
  then have c: "\<exists>out obj' r'. Convert ?opts obj parent' r = Inr (out, obj', r')" for parent'
    by (auto simp: returns_def)
  show "\<exists>out obj' r'. DictToXML obj opts r = Inr (out, obj', r')"
  proof (cases "XPathFormat ?opts")
    case True
    then show ?thesis by (simp add: DictToXML_def Let_def)
  next
    case x: False
    show ?thesis
    proof (cases "Root ?opts")
      case True
      from c [of "CustomRoot ?opts"] obtain out obj' r'
        where "Convert ?opts obj (CustomRoot ?opts) r = Inr (out, obj', r')" by blast
      with x True show ?thesis by (simp add: DictToXML_def Let_def)
    next
      case False
      from c [of "[]"] obtain out obj' r'
        where "Convert ?opts obj [] r = Inr (out, obj', r')" by blast
      with x False show ?thesis by (simp add: DictToXML_def Let_def)
    qed
  qed
qed

theorem Convert_returns_witness:
  \<open>ItemFunc DefaultOptions \<noteq> None
   \<and> (\<exists>out obj' r'. Convert DefaultOptions (VMap [(''a'', VSeq [VNil, VMap []])]) ''root'' (\<lambda>i. 0)
         = Inr (out, obj', r'))
   \<and> Convert DefaultOptions (VMap [(''a'', VNil)]) ''root'' (\<lambda>i. 0)
       = Inr (''<a type="null"></a>'', VMap [(''a'', VNil)], (\<lambda>i. 0))\<close>
proof -
  have i: "ItemFunc DefaultOptions \<noteq> None" by (simp add: DefaultOptions_def)
  with Convert_returns [of DefaultOptions "VMap [(''a'', VSeq [VNil, VMap []])]" "''root''" "\<lambda>i. 0"]
  have "\<exists>out obj' r'. Convert DefaultOptions (VMap [(''a'', VSeq [VNil, VMap []])]) ''root'' (\<lambda>i. 0)
         = Inr (out, obj', r')" by blast
  moreover have \<open>Convert DefaultOptions (VMap [(''a'', VNil)]) ''root'' (\<lambda>i. 0)
       = Inr (''<a type="null"></a>'', VMap [(''a'', VNil)], (\<lambda>i. 0))\<close>
    by (simp add: eval_defs)
  ultimately show ?thesis using i by blast
qed

text \<open>
  The claim as it was stated, for every option configuration, fails where \<open>ItemFunc\<close> is
  \<open>nil\<close>: \<open>Convert\<close> calls it before it looks at the value.
\<close>

theorem Convert_nil_ItemFunc_panics:
  "Convert (DefaultOptions\<lparr>ItemFunc := None\<rparr>) (VStr ''payload'') ''root'' (\<lambda>i. 0) = Inl NilFuncCall
   \<and> \<not> (\<exists>res. Convert (DefaultOptions\<lparr>ItemFunc := None\<rparr>) (VStr ''payload'') ''root'' (\<lambda>i. 0) = Inr res)"
  by (simp add: Convert.simps callItemFunc_def DefaultOptions_def)

subsection \<open>C3: keys in ascending order\<close>

lemma emitted_simps [simp]: "emitted (Inl e) = Inl e" "emitted (Inr (s, x, r)) = Inr (s, r)"
  by (simp_all add: emitted_def)

lemma ConvertDict_loop:
  "ConvertDict opts obj parent r =
     andThen (writeEach (dictEntry opts obj parent) (sort (map fst obj)) r)
       (\<lambda>(output, vals, r'). Inr (output, AList.updates (sort (map fst obj)) vals obj, r'))"
  by (subst ConvertDict.simps) (simp add: dictEntry_def [abs_def] Let_def)

lemma dictEntry_index:
  "index obj key = index obj' key \<Longrightarrow> dictEntry opts obj parent key q = dictEntry opts obj' parent key q"
  by (simp add: dictEntry_def)

lemma emitted_writeEach_cong:
  "(\<And>x q. x \<in> set xs \<Longrightarrow> emitted (f x q) = emitted (g x q))
   \<Longrightarrow> emitted (writeEach f xs r) = emitted (writeEach g xs r)"
proof (induction xs arbitrary: r)
  case Nil
  show ?case by simp
next
  case (Cons x xs)
  have h: "emitted (f x r) = emitted (g x r)" by (rule Cons.prems) simp
  have t: "emitted (writeEach f xs q) = emitted (writeEach g xs q)" for q
    by (rule Cons.IH) (simp add: Cons.prems)
  show ?case
  proof (cases "f x r")
    case (Inl e)
    with h show ?thesis by (cases "g x r") (auto simp: emitted_def split: prod.splits)
  next
    case (Inr a)
    obtain s y r1 where a: "a = (s, y, r1)" by (cases a) auto
    from h Inr a obtain y' where g: "g x r = Inr (s, y', r1)"
      by (cases "g x r") (auto simp: emitted_def split: prod.splits)
    from t [of r1] show ?thesis
      by (cases "writeEach f xs r1"; cases "writeEach g xs r1")
        (auto simp: Inr a g emitted_def split: prod.splits)
  qed
qed

lemma emitted_andThen_Inr:
  "emitted (andThen m (\<lambda>(s, x, r). Inr (s, h s x r, r))) = emitted m"
  by (cases m) (auto simp: emitted_def split: prod.splits)

lemma emitted_ConvertDict:
  "emitted (ConvertDict opts obj parent r)
     = emitted (writeEach (dictEntry opts obj parent) (sort (map fst obj)) r)"
  unfolding ConvertDict_loop by (rule emitted_andThen_Inr)

lemma index_single [simp]: "index [(k, v)] k = v"
  by (simp add: index_def)

lemma emitted_single:
  "emitted (ConvertDict opts [(k, index obj k)] parent q) = emitted (dictEntry opts obj parent k q)"
proof -
  have "dictEntry opts [(k, index obj k)] parent k q = dictEntry opts obj parent k q"
    by (rule dictEntry_index) simp
  then have "emitted (ConvertDict opts [(k, index obj k)] parent q)
      = emitted (andThen (dictEntry opts obj parent k q) (\<lambda>(s, y, r1). Inr (s, [y], r1)))"
    by (simp add: emitted_ConvertDict)
  also have "\<dots> = emitted (dictEntry opts obj parent k q)"
    by (cases "dictEntry opts obj parent k q") (auto simp: emitted_def split: prod.splits)
  finally show ?thesis .
qed

lemma sort_keys_eq:
  assumes "distinct (map fst obj)" "distinct (map fst obj')" "set obj' = set obj"
  shows "sort (map fst obj') = sort (map fst obj)" "index obj' k = index obj k"
proof -
  have "set (sort (map fst obj')) = set (sort (map fst obj))"
    using assms by simp
  then show "sort (map fst obj') = sort (map fst obj)"
    using assms by (intro sorted_distinct_set_unique) simp_all
  have "map_of obj' = map_of obj"
    using assms by (simp add: map_of_inject_set)
  then show "index obj' k = index obj k" by (simp add: index_def)
qed

text \<open>
  C3. For a mapping (an association list with distinct keys), \<open>ConvertDict\<close> visits the keys
  in strictly ascending bytewise order: what it writes is what the conversions of the
  one-entry mappings \<open>{k: obj[k]}\<close> write, one after the other, with \<open>k\<close> running through
  the sorted keys. So two lists of the same entries, in whatever order they were inserted,
  give the same text.
\<close>

theorem ConvertDict_sorted_keys:
  assumes "distinct (map fst obj)"
  shows "sorted_wrt (<) (sort (map fst obj))
    \<and> emitted (ConvertDict opts obj parent r)
        = emitted (writeEach (\<lambda>k. ConvertDict opts [(k, index obj k)] parent) (sort (map fst obj)) r)
    \<and> (\<forall>obj'. distinct (map fst obj') \<and> set obj' = set obj
          \<longrightarrow> emitted (ConvertDict opts obj' parent r) = emitted (ConvertDict opts obj parent r))"
proof (intro conjI allI impI)
  show "sorted_wrt (<) (sort (map fst obj))"
    using assms by (simp add: strict_sorted_iff)
next
  show "emitted (ConvertDict opts obj parent r)
        = emitted (writeEach (\<lambda>k. ConvertDict opts [(k, index obj k)] parent) (sort (map fst obj)) r)"
    unfolding emitted_ConvertDict
    by (rule emitted_writeEach_cong) (simp add: emitted_single)
next
  fix obj' assume a: "distinct (map fst obj') \<and> set obj' = set obj"
  have k: "sort (map fst obj') = sort (map fst obj)" and i: "\<And>k. index obj' k = index obj k"
    using sort_keys_eq [OF assms] a by auto
  have "dictEntry opts obj' parent = dictEntry opts obj parent"
    by (intro ext dictEntry_index i)
  then show "emitted (ConvertDict opts obj' parent r) = emitted (ConvertDict opts obj parent r)"
    by (simp add: emitted_ConvertDict k)
qed

theorem ConvertDict_sorted_keys_witness:
  \<open>distinct (map fst [(''b'', VStr ''2''), (''a'', VStr ''1'')])
   \<and> sort (map fst [(''b'', VStr ''2''), (''a'', VStr ''1'')]) = [''a'', ''b'']
   \<and> emitted (ConvertDict (DefaultOptions\<lparr>AttrType := False\<rparr>) [(''b'', VStr ''2''), (''a'', VStr ''1'')] ''root'' (\<lambda>i. 0))
       = Inr (''<a>1</a><b>2</b>'', (\<lambda>i. 0))
   \<and> emitted (ConvertDict (DefaultOptions\<lparr>AttrType := False\<rparr>) [(''a'', VStr ''1''), (''b'', VStr ''2'')] ''root'' (\<lambda>i. 0))
       = emitted (ConvertDict (DefaultOptions\<lparr>AttrType := False\<rparr>) [(''b'', VStr ''2''), (''a'', VStr ''1'')] ''root'' (\<lambda>i. 0))\<close>
proof -
  let ?obj = "[(''b'', VStr ''2''), (''a'', VStr ''1'')]"
  let ?obj' = "[(''a'', VStr ''1''), (''b'', VStr ''2'')]"
  have d: "distinct (map fst ?obj)" by simp
  have s: "sort (map fst ?obj) = [''a'', ''b'']" by simp
  have e: "emitted (ConvertDict (DefaultOptions\<lparr>AttrType := False\<rparr>) ?obj ''root'' (\<lambda>i. 0))
       = Inr (''<a>1</a><b>2</b>'', (\<lambda>i. 0))"
    by (simp add: eval_defs)
  have "distinct (map fst ?obj') \<and> set ?obj' = set ?obj" by auto
  with ConvertDict_sorted_keys [OF d, of "DefaultOptions\<lparr>AttrType := False\<rparr>" "''root''" "\<lambda>i. 0"]
  have "emitted (ConvertDict (DefaultOptions\<lparr>AttrType := False\<rparr>) ?obj' ''root'' (\<lambda>i. 0))
       = emitted (ConvertDict (DefaultOptions\<lparr>AttrType := False\<rparr>) ?obj ''root'' (\<lambda>i. 0))"
    by blast
  with d s e show ?thesis by blast
qed

subsection \<open>C8: the XPath dialect ignores the options and the meta keys\<close>

lemma index_member: "distinct (map fst m) \<Longrightarrow> (k, v) \<in> set m \<Longrightarrow> index m k = v"
  by (simp add: index_def)

lemma concat_map_member:
  "k \<in> set ks \<Longrightarrow> \<exists>before after. concat (map f ks) = before @ f k @ after"
proof -
  assume "k \<in> set ks"
  then obtain ks1 ks2 where "ks = ks1 @ k # ks2" by (auto dest: split_list)
  then have "concat (map f ks) = concat (map f ks1) @ f k @ concat (map f ks2)" by simp
  then show ?thesis by blast
qed

lemma XPath_entry:
  assumes "distinct (map fst m)" "(k, v) \<in> set m"
  shows "\<exists>before after. ConvertToXPath31 (VMap m) parentKey = before @ ConvertToXPath31 v k @ after"
proof -
  have "k \<in> set (sort (map fst m))" using assms(2) by force
  from concat_map_member [OF this, of "\<lambda>k. ConvertToXPath31 (index m k) k"]
  obtain b a where "concat (map (\<lambda>k. ConvertToXPath31 (index m k) k) (sort (map fst m)))
      = b @ ConvertToXPath31 (index m k) k @ a" by blast
  then have "ConvertToXPath31 (VMap m) parentKey
      = (''<map'' @ keyAttr parentKey @ ''>'' @ b) @ ConvertToXPath31 v k @ (a @ ''</map>'')"
    using index_member [OF assms] by (simp add: Let_def)
  then show ?thesis by blast
qed

lemma DictToXML_XPath:
  "XPathFormat opts \<Longrightarrow> DictToXML obj opts r = DictToXML obj (DefaultOptions\<lparr>XPathFormat := True\<rparr>) r"
  by (simp add: DictToXML_def DefaultOptions_def Let_def)

lemma DictToXML_XPath_pure:
  "XPathFormat opts \<Longrightarrow> \<exists>out. DictToXML obj opts r = Inr (out, obj, r)"
  by (simp add: DictToXML_def Let_def)

text \<open>
  C8. With \<open>XPathFormat\<close> on, \<open>DictToXML\<close> gives the same result under any two option
  configurations; it returns the value untouched and draws no random number. The encoding
  of a mapping, at the top or nested, under any key, is the \<open>map\<close> element that carries
  nothing but the \<open>key\<close> attribute of the mapping itself and holds, in ascending key order,
  the encoding of every entry's value under that entry's key and nothing else: no key is
  left out, turned into an attribute, taken for the content or used to drop the element,
  whether it is \<open>@attrs\<close>, \<open>@val\<close>, \<open>@flat\<close> or any other. A sequence is the \<open>array\<close>
  element of its members' encodings. So every entry, a meta key or not, appears in the
  output as the encoding of its value under its own key. For \<open>meta_map\<close>, with the keys
  \<open>@attrs\<close>, \<open>@val\<close> and \<open>@flat\<close>, the three keys are three ordinary children, in sorted
  order; for \<open>nested_meta\<close>, whose entry \<open>a\<close> is a mapping with \<open>@attrs\<close>, the element of
  \<open>a\<close> gets no \<open>id\<close> attribute and \<open>@attrs\<close> is a child of it.
\<close>

theorem XPath_ignores_options_and_meta_keys:
  \<open>(XPathFormat o1 \<and> XPathFormat o2 \<longrightarrow> DictToXML obj o1 r = DictToXML obj o2 r)
   \<and> (XPathFormat o1 \<longrightarrow> (\<exists>out. DictToXML obj o1 r = Inr (out, obj, r)))
   \<and> ConvertToXPath31 (VMap m) parentKey =
        ''<map'' @ keyAttr parentKey @ ''>''
        @ concat (map (\<lambda>k. ConvertToXPath31 (index m k) k) (sort (map fst m))) @ ''</map>''
   \<and> ConvertToXPath31 (VSeq items) parentKey =
        ''<array'' @ keyAttr parentKey @ ''>''
        @ concat (map (\<lambda>item. ConvertToXPath31 item []) items) @ ''</array>''
   \<and> keyAttr parentKey = (if parentKey = [] then [] else '' key="'' @ EscapeXML parentKey @ ''"'')
   \<and> (distinct (map fst m) \<and> (k, v) \<in> set m \<longrightarrow>
        (\<exists>before after. ConvertToXPath31 (VMap m) parentKey = before @ ConvertToXPath31 v k @ after))
   \<and> (XPathFormat o1 \<longrightarrow> DictToXML meta_map o1 r =
        Inr (''<?xml version="1.0" encoding="UTF-8" ?><map xmlns="http://www.w3.org/2005/xpath-functions">''
             @ ''<map key="@attrs"><string key="id">1</string></map>''
             @ ''<boolean key="@flat">true</boolean><string key="@val">x</string></map>'', meta_map, r))
   \<and> (XPathFormat o1 \<longrightarrow> DictToXML nested_meta o1 r =
        Inr (''<?xml version="1.0" encoding="UTF-8" ?><map xmlns="http://www.w3.org/2005/xpath-functions">''
             @ ''<map key="a"><map key="@attrs"><string key="id">1</string></map>''
             @ ''<string key="k">v</string></map></map>'', nested_meta, r))\<close>
proof (intro conjI impI)
  assume "XPathFormat o1 \<and> XPathFormat o2"
  then show "DictToXML obj o1 r = DictToXML obj o2 r"
    using DictToXML_XPath [of o1 obj r] DictToXML_XPath [of o2 obj r] by simp
next
  assume "XPathFormat o1"
  then show "\<exists>out. DictToXML obj o1 r = Inr (out, obj, r)" by (rule DictToXML_XPath_pure)
next
  show "ConvertToXPath31 (VMap m) parentKey =
        ''<map'' @ keyAttr parentKey @ ''>''
        @ concat (map (\<lambda>k. ConvertToXPath31 (index m k) k) (sort (map fst m))) @ ''</map>''"
    by (simp add: Let_def)
next
  show "ConvertToXPath31 (VSeq items) parentKey =
        ''<array'' @ keyAttr parentKey @ ''>''
        @ concat (map (\<lambda>item. ConvertToXPath31 item []) items) @ ''</array>''"
    by (simp add: Let_def)
next
  show \<open>keyAttr parentKey = (if parentKey = [] then [] else '' key="'' @ EscapeXML parentKey @ ''"'')\<close>
    by (simp add: keyAttr_def)
next
  assume "distinct (map fst m) \<and> (k, v) \<in> set m"
  then show "\<exists>before after. ConvertToXPath31 (VMap m) parentKey = before @ ConvertToXPath31 v k @ after"
    using XPath_entry by blast
next
  assume "XPathFormat o1"
  then have "DictToXML meta_map o1 r = DictToXML meta_map (DefaultOptions\<lparr>XPathFormat := True\<rparr>) r"
    by (rule DictToXML_XPath)
  also have \<open>\<dots> = Inr (''<?xml version="1.0" encoding="UTF-8" ?><map xmlns="http://www.w3.org/2005/xpath-functions">''
             @ ''<map key="@attrs"><string key="id">1</string></map>''
             @ ''<boolean key="@flat">true</boolean><string key="@val">x</string></map>'', meta_map, r)\<close>
    by (simp add: meta_map_def eval_defs)
  finally show \<open>DictToXML meta_map o1 r =
        Inr (''<?xml version="1.0" encoding="UTF-8" ?><map xmlns="http://www.w3.org/2005/xpath-functions">''
             @ ''<map key="@attrs"><string key="id">1</string></map>''
             @ ''<boolean key="@flat">true</boolean><string key="@val">x</string></map>'', meta_map, r)\<close> .
next
  assume "XPathFormat o1"
  then have "DictToXML nested_meta o1 r = DictToXML nested_meta (DefaultOptions\<lparr>XPathFormat := True\<rparr>) r"
    by (rule DictToXML_XPath)
  also have \<open>\<dots> = Inr (''<?xml version="1.0" encoding="UTF-8" ?><map xmlns="http://www.w3.org/2005/xpath-functions">''
             @ ''<map key="a"><map key="@attrs"><string key="id">1</string></map>''
             @ ''<string key="k">v</string></map></map>'', nested_meta, r)\<close>
    by (simp add: nested_meta_def eval_defs)
  finally show \<open>DictToXML nested_meta o1 r =
        Inr (''<?xml version="1.0" encoding="UTF-8" ?><map xmlns="http://www.w3.org/2005/xpath-functions">''
             @ ''<map key="a"><map key="@attrs"><string key="id">1</string></map>''
             @ ''<string key="k">v</string></map></map>'', nested_meta, r)\<close> .
qed

theorem XPath_ignores_options_and_meta_keys_witness:
  \<open>XPathFormat (DefaultOptions\<lparr>XPathFormat := True\<rparr>)
   \<and> XPathFormat (DefaultOptions\<lparr>XPathFormat := True, Root := False, ItemWrap := False, CDATA := True, IDs := True\<rparr>)
   \<and> DictToXML nested_meta (DefaultOptions\<lparr>XPathFormat := True\<rparr>) (\<lambda>i. 0)
       = DictToXML nested_meta
           (DefaultOptions\<lparr>XPathFormat := True, Root := False, ItemWrap := False, CDATA := True, IDs := True\<rparr>) (\<lambda>i. 0)
   \<and> DictToXML nested_meta (DefaultOptions\<lparr>XPathFormat := True\<rparr>) (\<lambda>i. 0) =
        Inr (''<?xml version="1.0" encoding="UTF-8" ?><map xmlns="http://www.w3.org/2005/xpath-functions">''
             @ ''<map key="a"><map key="@attrs"><string key="id">1</string></map>''
             @ ''<string key="k">v</string></map></map>'', nested_meta, (\<lambda>i. 0))
   \<and> distinct (map fst [(''@attrs'', VMap [(''id'', VStr ''1'')]), (''k'', VStr ''v'')])
   \<and> (''@attrs'', VMap [(''id'', VStr ''1'')]) \<in> set [(''@attrs'', VMap [(''id'', VStr ''1'')]), (''k'', VStr ''v'')]
   \<and> (\<exists>before after.
         ConvertToXPath31 (VMap [(''@attrs'', VMap [(''id'', VStr ''1'')]), (''k'', VStr ''v'')]) ''a''
           = before @ ConvertToXPath31 (VMap [(''id'', VStr ''1'')]) ''@attrs'' @ after)
   \<and> ConvertToXPath31 (VMap [(''@attrs'', VMap [(''id'', VStr ''1'')]), (''k'', VStr ''v'')]) ''a''
       = ''<map key="a">'' @ ConvertToXPath31 (VMap [(''id'', VStr ''1'')]) ''@attrs''
         @ ConvertToXPath31 (VStr ''v'') ''k'' @ ''</map>''\<close>
proof -
  let ?o1 = "DefaultOptions\<lparr>XPathFormat := True\<rparr>"
  let ?o2 = "DefaultOptions\<lparr>XPathFormat := True, Root := False, ItemWrap := False, CDATA := True, IDs := True\<rparr>"
  let ?m = "[(''@attrs'', VMap [(''id'', VStr ''1'')]), (''k'', VStr ''v'')]"
  have x: "XPathFormat ?o1" "XPathFormat ?o2" by simp_all
  have d: "distinct (map fst ?m)" by simp
  have e: "(''@attrs'', VMap [(''id'', VStr ''1'')]) \<in> set ?m" by simp
  note t = XPath_ignores_options_and_meta_keys
    [of ?o1 ?o2 nested_meta "\<lambda>i. 0" ?m "''a''" "[]" "''@attrs''" "VMap [(''id'', VStr ''1'')]"]
  from t x have a: "DictToXML nested_meta ?o1 (\<lambda>i. 0) = DictToXML nested_meta ?o2 (\<lambda>i. 0)" by blast
  from t x have b: \<open>DictToXML nested_meta ?o1 (\<lambda>i. 0) =
        Inr (''<?xml version="1.0" encoding="UTF-8" ?><map xmlns="http://www.w3.org/2005/xpath-functions">''
             @ ''<map key="a"><map key="@attrs"><string key="id">1</string></map>''
             @ ''<string key="k">v</string></map></map>'', nested_meta, (\<lambda>i. 0))\<close> by blast
  from t d e have c: "\<exists>before after. ConvertToXPath31 (VMap ?m) ''a''
      = before @ ConvertToXPath31 (VMap [(''id'', VStr ''1'')]) ''@attrs'' @ after" by blast
  from t have "ConvertToXPath31 (VMap ?m) ''a'' =
        ''<map'' @ keyAttr ''a'' @ ''>''
        @ concat (map (\<lambda>k. ConvertToXPath31 (index ?m k) k) (sort (map fst ?m))) @ ''</map>''"
    by blast
  then have f: \<open>ConvertToXPath31 (VMap ?m) ''a''
       = ''<map key="a">'' @ ConvertToXPath31 (VMap [(''id'', VStr ''1'')]) ''@attrs''
         @ ConvertToXPath31 (VStr ''v'') ''k'' @ ''</map>''\<close>
    by (simp add: keyAttr_def index_def EscapeXML_char_by_char escape_single_pass_def escape_char_def)
  from x a b d e c f show ?thesis by blast
qed

subsection \<open>C10: \<open>Dict2XMLStr\<close> strips the meta keys from the caller's map\<close>

lemma keys_updates:
  "set ks \<subseteq> set (map fst al) \<Longrightarrow> map fst (AList.updates ks vs al) = map fst al"
proof (induction ks arbitrary: vs al)
  case Nil
  show ?case by simp
next
  case (Cons k ks)
  show ?case
  proof (cases vs)
    case Nil
    then show ?thesis by simp
  next
    case (Cons v vs')
    have "map fst (AList.update k v al) = map fst al"
      using Cons.prems by (simp add: update_keys)
    with Cons.IH [of "AList.update k v al" vs'] Cons.prems Cons show ?thesis by simp
  qed
qed

lemma ConvertDict_keys:
  "ConvertDict opts obj parent r = Inr (s, obj', r') \<Longrightarrow> map fst obj' = map fst obj"
  by (cases "writeEach (dictEntry opts obj parent) (sort (map fst obj)) r")
    (auto simp: ConvertDict_loop keys_updates)

lemma Convert_map_keys:
  "Convert opts (VMap m) parent r = Inr (s, v', r') \<Longrightarrow> \<exists>m'. v' = VMap m' \<and> map fst m' = map fst m"
  apply (subst (asm) Convert.simps)
  apply (cases "callItemFunc opts parent"; cases "ConvertDict opts m parent r")
     apply (auto dest: ConvertDict_keys)
  done

lemma delete_if_present:
  "(case map_of al k of Some v \<Rightarrow> AList.delete k al | None \<Rightarrow> al) = AList.delete k al"
proof (cases "map_of al k")
  case None
  then have "k \<notin> fst ` set al" by (simp add: map_of_eq_None_iff)
  then show ?thesis using None by simp
next
  case (Some v)
  then show ?thesis by simp
qed

lemma extract_item:
  assumes "extractSpecialAttrs item a = (va, raw, fl, item1)"
  shows "item1 = AList.delete ''@flat'' (AList.delete ''@val''
           (case map_of item ''@attrs'' of Some (VMap ca) \<Rightarrow> AList.delete ''@attrs'' item | _ \<Rightarrow> item))"
proof -
  define i1 where "i1 = (case map_of item ''@attrs'' of Some (VMap ca) \<Rightarrow> AList.delete ''@attrs'' item | _ \<Rightarrow> item)"
  define i2 where "i2 = (case map_of i1 ''@val'' of Some v \<Rightarrow> AList.delete ''@val'' i1 | None \<Rightarrow> i1)"
  define i3 where "i3 = (case map_of i2 ''@flat'' of Some f \<Rightarrow> AList.delete ''@flat'' i2 | None \<Rightarrow> i2)"
  have "item1 = i3"
    using assms unfolding extractSpecialAttrs_def i1_def i2_def i3_def
    by (auto simp: Let_def split: option.splits val.splits prod.splits)
  also have "i3 = AList.delete ''@flat'' i2" unfolding i3_def by (rule delete_if_present)
  also have "i2 = AList.delete ''@val'' i1" unfolding i2_def by (rule delete_if_present)
  finally show ?thesis unfolding i1_def .
qed

lemma extract_keys:
  assumes "extractSpecialAttrs item a = (va, raw, fl, item1)"
  shows "map fst item1 = filter (\<lambda>k. \<not> deleted_key item k) (map fst item)"
proof -
  have f: "filter (\<lambda>k. \<not> deleted_key item k) ks
     = removeAll ''@flat'' (removeAll ''@val''
         (case map_of item ''@attrs'' of Some (VMap ca) \<Rightarrow> removeAll ''@attrs'' ks | _ \<Rightarrow> ks))" for ks
    by (induction ks) (auto simp: deleted_key_def split: option.splits val.splits)
  have "map fst item1 = removeAll ''@flat'' (removeAll ''@val''
         (map fst (case map_of item ''@attrs'' of Some (VMap ca) \<Rightarrow> AList.delete ''@attrs'' item | _ \<Rightarrow> item)))"
    unfolding extract_item [OF assms] by (simp only: delete_keys)
  also have "map fst (case map_of item ''@attrs'' of Some (VMap ca) \<Rightarrow> AList.delete ''@attrs'' item | _ \<Rightarrow> item)
     = (case map_of item ''@attrs'' of Some (VMap ca) \<Rightarrow> removeAll ''@attrs'' (map fst item) | _ \<Rightarrow> map fst item)"
    by (simp add: delete_keys split: option.splits val.splits)
  finally show ?thesis unfolding f .
qed

lemma extract_Self:
  "extractSpecialAttrs item a = (va, Self, fl, item1) \<Longrightarrow> \<not> IsPrimitiveType (rawValue Self item1)"
  by (simp add: rawValue_def IsPrimitiveType_def)

lemma Dict2XMLStr_keys:
  assumes "Dict2XMLStr opts attrs item itemName parentIsList parent r = Inr (out, item', r')"
  shows "map fst item' = filter (\<lambda>k. \<not> deleted_key item k) (map fst item)"
proof -
  from assms obtain x where
    x: "(if AttrType opts then mapassign attrs ''type'' (VStr (GetXMLType (VMap item))) else Inr attrs) = Inr x"
    by (subst (asm) Dict2XMLStr.simps) (auto simp: andThen_def split: sum.splits)
  obtain va raw fl item1 where e: "extractSpecialAttrs item x = (va, raw, fl, item1)"
    by (cases "extractSpecialAttrs item x") auto
  let ?sub = "if IsPrimitiveType (rawValue raw item1)
       then Inr (EscapeXML (case rawValue raw item1 of VStr v \<Rightarrow> v | _ \<Rightarrow> fmt_v (rawValue raw item1)), item1, r)
       else andThen (Convert opts (rawValue raw item1) itemName r)
              (\<lambda>(s, rawItem', r').
                 Inr (s, (case raw of Self \<Rightarrow> (case rawItem' of VMap m \<Rightarrow> m | _ \<Rightarrow> item1) | Other v \<Rightarrow> item1), r'))"
  from assms obtain subtree q where sub: "?sub = Inr (subtree, item', q)"
    apply (subst (asm) Dict2XMLStr.simps)
    apply (simp only: x andThen_Inr e prod.case Let_def)
    apply (cases ?sub)
     apply (auto split: if_splits)
    done
  have "map fst item' = map fst item1"
  proof (cases "IsPrimitiveType (rawValue raw item1)")
    case True
    with sub show ?thesis by simp
  next
    case False
    with sub obtain s v' q' where
      c: "Convert opts (rawValue raw item1) itemName r = Inr (s, v', q')" and
      i: "item' = (case raw of Self \<Rightarrow> (case v' of VMap m \<Rightarrow> m | _ \<Rightarrow> item1) | Other v \<Rightarrow> item1)"
      by (cases "Convert opts (rawValue raw item1) itemName r") auto
    show ?thesis
    proof (cases raw)
      case Self
      with c have "Convert opts (VMap item1) itemName r = Inr (s, v', q')" by (simp add: rawValue_def)
      from Convert_map_keys [OF this] i Self show ?thesis by auto
    next
      case (Other v)
      with i show ?thesis by simp
    qed
  qed
  with extract_keys [OF e] show ?thesis by simp
qed

lemma same_kind_refl [simp]: "same_kind v v"
  by (cases v) (simp_all add: same_kind_def)

lemma dictEntry_kind:
  "dictEntry opts obj parent k q = Inr (s, v', q') \<Longrightarrow> same_kind (index obj k) v'"
  unfolding dictEntry_def Let_def
  by (cases "index obj k")
    (auto simp: andThen_def same_kind_def split: prod.splits sum.splits if_splits)

lemma writeEach_zip:
  "writeEach f xs r = Inr (s, ys, r') \<Longrightarrow> (x, y) \<in> set (zip xs ys) \<Longrightarrow> \<exists>q s' q'. f x q = Inr (s', y, q')"
proof (induction xs arbitrary: r s ys r')
  case Nil
  then show ?case by simp
next
  case (Cons x0 xs)
  from Cons.prems(1) obtain s0 y0 r1 where f: "f x0 r = Inr (s0, y0, r1)"
    by (cases "f x0 r") auto
  with Cons.prems(1) obtain out ys' r2 where w: "writeEach f xs r1 = Inr (out, ys', r2)" and ys: "ys = y0 # ys'"
    by (cases "writeEach f xs r1") auto
  from Cons.prems(2) ys have "(x, y) = (x0, y0) \<or> (x, y) \<in> set (zip xs ys')" by auto
  then show ?case
  proof
    assume "(x, y) = (x0, y0)"
    with f show ?thesis by blast
  next
    assume "(x, y) \<in> set (zip xs ys')"
    from Cons.IH [OF w this] show ?thesis .
  qed
qed

lemma updates_lookup:
  "(\<And>k0 v0. (k0, v0) \<in> set (zip ks vs) \<Longrightarrow> R k0 v0)
   \<Longrightarrow> map_of (AList.updates ks vs al) k = Some v' \<Longrightarrow> map_of al k = Some v' \<or> R k v'"
proof (induction ks arbitrary: vs al)
  case Nil
  then show ?case by simp
next
  case (Cons k0 ks)
  show ?case
  proof (cases vs)
    case Nil
    with Cons.prems show ?thesis by simp
  next
    case (Cons v0 vs')
    have r: "R k0 v0" by (rule Cons.prems(1)) (simp add: Cons)
    have "map_of (AList.updates ks vs' (AList.update k0 v0 al)) k = Some v'"
      using Cons.prems(2) Cons by simp
    then have "map_of (AList.update k0 v0 al) k = Some v' \<or> R k v'"
      by (rule Cons.IH [rotated]) (rule Cons.prems(1), simp add: Cons)
    with r show ?thesis by (auto simp: update_conv' split: if_splits)
  qed
qed

lemma ConvertDict_values:
  assumes "ConvertDict opts obj parent r = Inr (s, obj', r')"
  shows "same_kind (index obj k) (index obj' k)"
proof -
  from assms obtain vals where
    w: "writeEach (dictEntry opts obj parent) (sort (map fst obj)) r = Inr (s, vals, r')" and
    o: "obj' = AList.updates (sort (map fst obj)) vals obj"
    by (cases "writeEach (dictEntry opts obj parent) (sort (map fst obj)) r") (auto simp: ConvertDict_loop)
  have z: "same_kind (index obj k0) v0" if "(k0, v0) \<in> set (zip (sort (map fst obj)) vals)" for k0 v0
    using writeEach_zip [OF w that] dictEntry_kind by blast
  show ?thesis
  proof (cases "map_of obj' k")
    case None
    then have "k \<notin> fst ` set obj'" by (simp add: map_of_eq_None_iff)
    moreover have "map fst obj' = map fst obj" by (rule ConvertDict_keys [OF assms])
    then have "fst ` set obj' = fst ` set obj" by (metis set_map)
    ultimately have "map_of obj k = None" by (simp add: map_of_eq_None_iff)
    with None show ?thesis by (simp add: index_def)
  next
    case (Some v')
    then have "map_of obj k = Some v' \<or> same_kind (index obj k) v'"
      unfolding o by (rule updates_lookup [rotated]) (rule z)
    with Some show ?thesis by (auto simp: index_def)
  qed
qed

lemma extract_values:
  assumes "extractSpecialAttrs item a = (va, raw, fl, item1)" "\<not> deleted_key item k"
  shows "index item1 k = index item k"
proof -
  have "map_of item1 k = map_of item k"
    unfolding extract_item [OF assms(1)] using assms(2)
    by (auto simp: deleted_key_def delete_conv' split: option.splits val.splits)
  then show ?thesis by (simp add: index_def)
qed


lemma Convert_map_values:
  "Convert opts (VMap m) parent r = Inr (s, VMap m', r') \<Longrightarrow> same_kind (index m k) (index m' k)"
  apply (subst (asm) Convert.simps)
  apply (cases "callItemFunc opts parent"; cases "ConvertDict opts m parent r")
     apply (auto dest: ConvertDict_values)
  done

lemma Dict2XMLStr_values:
  assumes "Dict2XMLStr opts attrs item itemName parentIsList parent r = Inr (out, item', r')"
    and "\<not> deleted_key item k"
  shows "same_kind (index item k) (index item' k)"
proof -
  from assms(1) obtain x where
    x: "(if AttrType opts then mapassign attrs ''type'' (VStr (GetXMLType (VMap item))) else Inr attrs) = Inr x"
    by (subst (asm) Dict2XMLStr.simps) (auto simp: andThen_def split: sum.splits)
  obtain va raw fl item1 where e: "extractSpecialAttrs item x = (va, raw, fl, item1)"
    by (cases "extractSpecialAttrs item x") auto
  let ?sub = "if IsPrimitiveType (rawValue raw item1)
       then Inr (EscapeXML (case rawValue raw item1 of VStr v \<Rightarrow> v | _ \<Rightarrow> fmt_v (rawValue raw item1)), item1, r)
       else andThen (Convert opts (rawValue raw item1) itemName r)
              (\<lambda>(s, rawItem', r').
                 Inr (s, (case raw of Self \<Rightarrow> (case rawItem' of VMap m \<Rightarrow> m | _ \<Rightarrow> item1) | Other v \<Rightarrow> item1), r'))"
  from assms(1) obtain subtree q where sub: "?sub = Inr (subtree, item', q)"
    apply (subst (asm) Dict2XMLStr.simps)
    apply (simp only: x andThen_Inr e prod.case Let_def)
    apply (cases ?sub)
     apply (auto split: if_splits)
    done
  have "same_kind (index item1 k) (index item' k)"
  proof (cases "IsPrimitiveType (rawValue raw item1)")
    case True
    with sub show ?thesis by simp
  next
    case False
    with sub obtain s v' q' where
      c: "Convert opts (rawValue raw item1) itemName r = Inr (s, v', q')" and
      i: "item' = (case raw of Self \<Rightarrow> (case v' of VMap m \<Rightarrow> m | _ \<Rightarrow> item1) | Other v \<Rightarrow> item1)"
      by (cases "Convert opts (rawValue raw item1) itemName r") auto
    show ?thesis
    proof (cases raw)
      case Self
      with c have c': "Convert opts (VMap item1) itemName r = Inr (s, v', q')" by (simp add: rawValue_def)
      from Convert_map_keys [OF c'] obtain m' where v': "v' = VMap m'" by blast
      from Convert_map_values [OF c' [unfolded v']] i Self v' show ?thesis by simp
    next
      case (Other v)
      with i show ?thesis by simp
    qed
  qed
  with extract_values [OF e assms(2)] show ?thesis by simp
qed

text \<open>
  C10. \<open>Dict2XMLStr\<close> returns whenever \<open>ItemFunc\<close> is set and the attribute map it is to
  write the type into is not \<open>nil\<close>; and whenever it returns, the caller's map has lost
  exactly the keys \<open>@val\<close> and \<open>@flat\<close>, and \<open>@attrs\<close> if a map was stored under it: the
  keys of the map after the call are the other keys of the map before the call, in place.
  Under each key that stays, the map holds a value of the same kind as before: the same
  value, unless it is a map or a sequence, which the call may have walked in turn.
\<close>

theorem Dict2XMLStr_deletes_meta_keys:
  "(ItemFunc opts \<noteq> None \<and> (AttrType opts \<longrightarrow> attrs \<noteq> None)
      \<longrightarrow> (\<exists>out item' r'. Dict2XMLStr opts attrs item itemName parentIsList parent r = Inr (out, item', r')))
   \<and> (\<forall>out item' r'. Dict2XMLStr opts attrs item itemName parentIsList parent r = Inr (out, item', r')
      \<longrightarrow> map fst item' = filter (\<lambda>k. \<not> deleted_key item k) (map fst item)
          \<and> (\<forall>k. \<not> deleted_key item k \<longrightarrow> same_kind (index item k) (index item' k)))"
proof (intro conjI impI allI)
  assume "ItemFunc opts \<noteq> None \<and> (AttrType opts \<longrightarrow> attrs \<noteq> None)"
  then have "returns (Dict2XMLStr opts attrs item itemName parentIsList parent r)"
    by (intro transcoder_returns) auto
  then show "\<exists>out item' r'. Dict2XMLStr opts attrs item itemName parentIsList parent r = Inr (out, item', r')"
    by (auto simp: returns_def)
next
  fix out item' r'
  assume "Dict2XMLStr opts attrs item itemName parentIsList parent r = Inr (out, item', r')"
  then show "map fst item' = filter (\<lambda>k. \<not> deleted_key item k) (map fst item)"
    by (rule Dict2XMLStr_keys)
next
  fix out item' r' k
  assume "Dict2XMLStr opts attrs item itemName parentIsList parent r = Inr (out, item', r')"
    and "\<not> deleted_key item k"
  then show "same_kind (index item k) (index item' k)"
    by (rule Dict2XMLStr_values)
qed

theorem Dict2XMLStr_deletes_meta_keys_witness:
  \<open>Dict2XMLStr (DefaultOptions\<lparr>AttrType := False\<rparr>) (Some []) tagged ''elem'' False ''parent'' (\<lambda>i. 0)
     = Inr (''<elem id="7"><k>v</k></elem>'', [(''k'', VStr ''v'')], (\<lambda>i. 0))
   \<and> map fst [(''k'', VStr ''v'')] = filter (\<lambda>k. \<not> deleted_key tagged k) (map fst tagged)
   \<and> \<not> deleted_key tagged ''k''
   \<and> same_kind (index tagged ''k'') (index [(''k'', VStr ''v'')] ''k'')\<close>
proof -
  have e: \<open>Dict2XMLStr (DefaultOptions\<lparr>AttrType := False\<rparr>) (Some []) tagged ''elem'' False ''parent'' (\<lambda>i. 0)
     = Inr (''<elem id="7"><k>v</k></elem>'', [(''k'', VStr ''v'')], (\<lambda>i. 0))\<close>
    by (simp add: tagged_def eval_defs)
  have n: "\<not> deleted_key tagged ''k''" by (simp add: deleted_key_def)
  from Dict2XMLStr_deletes_meta_keys
    [of "DefaultOptions\<lparr>AttrType := False\<rparr>" "Some []" tagged "''elem''" False "''parent''" "\<lambda>i. 0"] e
  have a: "map fst [(''k'', VStr ''v'')] = filter (\<lambda>k. \<not> deleted_key tagged k) (map fst tagged)
    \<and> (\<forall>k. \<not> deleted_key tagged k \<longrightarrow> same_kind (index tagged k) (index [(''k'', VStr ''v'')] k))"
    by blast
  with n have "same_kind (index tagged ''k'') (index [(''k'', VStr ''v'')] ''k'')" by blast
  with a e n show ?thesis by blast
qed

end
